theory Spec2Isabelle
  imports Main "HOL-Library.Char_ord" "HOL-Library.List_Lexorder" "HOL-Library.Product_Lexorder"
    "HOL-Library.Sublist"
begin

section \<open>Data model\<close>

text \<open>
  The grammar builder of the SOFiSTiK language package (\<^verbatim>\<open>build/build.py\<close>) reads a
  workbook of keywords, builds a table module \<rightarrow> command \<rightarrow> sub-keywords, and prints a
  TextMate grammar in CSON. The workbook is what \<^verbatim>\<open>openpyxl\<close> hands to the loops of
  \<^verbatim>\<open>load_keywords\<close>: the sheet names in order, and for each sheet its rows of cell values.

  A cell value is \<^verbatim>\<open>None\<close>, a string or an integer (the model leaves out floats, booleans
  and dates). Strings are lists of \<^typ>\<open>char\<close>, one \<^typ>\<open>char\<close> for one character of the
  Python string, compared by code.
  A Python \<^verbatim>\<open>dict\<close> is an association list in insertion order: assigning to a key that
  is present replaces the value and keeps the position.

  The case maps \<^verbatim>\<open>str.upper\<close> and \<^verbatim>\<open>str.lower\<close> are built into Python; their tables
  are not part of the builder. Every function that calls one of them takes it as a
  parameter, \<open>str_upper\<close> or \<open>str_lower\<close>, a function from strings to strings (the
  upper case of one character can be several characters). Nothing is assumed of them
  except where a theorem says so.
\<close>

datatype cell = PyNone | PyStr string | PyInt int

datatype error = TypeError | IndexError

fun dict_set :: "('k \<times> 'v) list \<Rightarrow> 'k \<Rightarrow> 'v \<Rightarrow> ('k \<times> 'v) list" where
  "dict_set [] k v = [(k, v)]"
| "dict_set ((k', v') # d) k v =
     (if k' = k then (k', v) # d else (k', v') # dict_set d k v)"

definition newline :: string where
  "newline = [CHR 0x0A]"

definition backslash :: string where
  "backslash = [CHR 0x5C]"

definition apostrophe :: string where
  "apostrophe = [CHR 0x27]"

definition dquote :: string where
  "dquote = [CHR 0x22]"

text \<open>\<^verbatim>\<open>sep.join(ws)\<close>.\<close>

fun join :: "string \<Rightarrow> string list \<Rightarrow> string" where
  "join sep [] = []"
| "join sep [w] = w"
| "join sep (w # v # ws) = w @ sep @ join sep (v # ws)"

section \<open>\<^verbatim>\<open>load_keywords\<close>: building the keyword table\<close>

text \<open>
  \<^verbatim>\<open>current_command_subkeywords = module_keywords[cell_value] = []\<close> binds one new list
  object to both the dictionary entry and the loop variable, and
  \<^verbatim>\<open>current_command_subkeywords.append(cell_value)\<close> mutates whatever list the variable
  points to. The model keeps that aliasing: list objects live in a heap (a list of lists,
  the address is the index), the dictionary maps a command to the address of its list, and
  the loop variable is an address. Address 0 is the list created by
  \<^verbatim>\<open>current_command_subkeywords = []\<close> at the start of a sheet; no dictionary entry
  points to it. The loop variable always holds an allocated address, so the read
  \<open>heap st ! cur\<close> is in range (\<open>state_inv\<close> below).

  The loop of the older script \<^verbatim>\<open>build.py\<close> (lines 6 to 18) is the same loop with
  shorter variable names.
\<close>

record load_state =
  heap :: "cell list list"
  module_keywords :: "(cell \<times> nat) list"
  current_command_subkeywords :: nat

definition skip_cell :: "cell \<Rightarrow> bool" where
  "skip_cell cell_value =
     (cell_value = PyNone \<or> (case cell_value of PyStr s \<Rightarrow> length s = 0 | _ \<Rightarrow> False))"

definition load_cell :: "nat \<times> cell \<Rightarrow> load_state \<Rightarrow> load_state" where
  "load_cell ic st =
     (let column_index = fst ic; cell_value = snd ic in
      if skip_cell cell_value then st
      else if column_index = 0 then
        (let fresh = length (heap st) in
         st\<lparr>heap := heap st @ [[]],
            module_keywords := dict_set (module_keywords st) cell_value fresh,
            current_command_subkeywords := fresh\<rparr>)
      else
        (let cur = current_command_subkeywords st in
         st\<lparr>heap := (heap st)[cur := (heap st ! cur) @ [cell_value]]\<rparr>))"

definition load_row :: "cell list \<Rightarrow> load_state \<Rightarrow> load_state" where
  "load_row row st = fold load_cell (enumerate 0 row) st"

definition init_state :: load_state where
  "init_state = \<lparr>heap = [[]], module_keywords = [], current_command_subkeywords = 0\<rparr>"

definition read_table :: "load_state \<Rightarrow> (cell \<times> cell list) list" where
  "read_table st = map (\<lambda>(k, a). (k, heap st ! a)) (module_keywords st)"

definition load_sheet :: "cell list list \<Rightarrow> (cell \<times> cell list) list" where
  "load_sheet rows = read_table (fold load_row rows init_state)"

definition load_keywords ::
  "(string \<times> cell list list) list \<Rightarrow> (string \<times> (cell \<times> cell list) list) list" where
  "load_keywords workbook =
     fold (\<lambda>(module_name, rows) keywords_by_module.
             dict_set keywords_by_module module_name (load_sheet rows)) workbook []"

section \<open>\<^verbatim>\<open>optimize_pattern\<close>\<close>

text \<open>
  \<^verbatim>\<open>keyword[0]\<close> raises \<^verbatim>\<open>IndexError\<close> on an empty keyword;
  \<^verbatim>\<open>keyword[0].upper()\<close> is \<open>str_upper [c]\<close>. The groups are a
  \<^verbatim>\<open>defaultdict(list)\<close>: appending under a missing key creates the entry, and reading a
  missing key gives the empty list. \<^verbatim>\<open>sort(key=lambda x: (-len(x), x))\<close> is a stable sort
  on the pair of the negated length and the string.
\<close>

fun group_append ::
  "(string \<times> string list) list \<Rightarrow> string \<Rightarrow> string \<Rightarrow> (string \<times> string list) list" where
  "group_append [] k w = [(k, [w])]"
| "group_append ((k', ws) # d) k w =
     (if k' = k then (k', ws @ [w]) # d else (k', ws) # group_append d k w)"

fun group_keywords ::
  "(string \<Rightarrow> string) \<Rightarrow> string list \<Rightarrow> (string \<times> string list) list \<Rightarrow>
   error + (string \<times> string list) list" where
  "group_keywords str_upper [] groups = Inr groups"
| "group_keywords str_upper (keyword # rest) groups =
     (case keyword of
        [] \<Rightarrow> Inl IndexError
      | c # _ \<Rightarrow> group_keywords str_upper rest (group_append groups (str_upper [c]) keyword))"

definition sort_keywords :: "string list \<Rightarrow> string list" where
  "sort_keywords ws = sort_key (\<lambda>x. (- int (length x), x)) ws"

definition group_lookup :: "(string \<times> string list) list \<Rightarrow> string \<Rightarrow> string list" where
  "group_lookup groups character = (case map_of groups character of None \<Rightarrow> [] | Some ws \<Rightarrow> ws)"

definition pattern_part :: "(string \<times> string list) list \<Rightarrow> string \<Rightarrow> string" where
  "pattern_part groups character =
     (let word_list = group_lookup groups character in
      if length word_list = 1 then word_list ! 0
      else (let word_suffixes = join ''|'' (map (drop 1) word_list) in
            ''(?:'' @ character @ ''(?:'' @ word_suffixes @ ''))''))"

definition optimize_pattern :: "(string \<Rightarrow> string) \<Rightarrow> string list \<Rightarrow> error + string" where
  "optimize_pattern str_upper keyword_list =
     (if keyword_list = [] then Inr []
      else case group_keywords str_upper keyword_list [] of
             Inl e \<Rightarrow> Inl e
           | Inr grouped \<Rightarrow>
              (let groups = map (\<lambda>(character, ws). (character, sort_keywords ws)) grouped in
               if length groups = 1 then Inr (join ''|'' (snd (groups ! 0)))
               else Inr (join ''|'' (map (pattern_part groups) (sort (map fst groups))))))"

section \<open>The rule templates\<close>

text \<open>
  The f-strings of \<^verbatim>\<open>generate_module_patterns\<close> and the two fixed texts of
  \<^verbatim>\<open>generate_grammar\<close>, character for character, one source line per line.
\<close>

definition module_begin_end_pattern :: "string \<Rightarrow> string \<Rightarrow> string" where
  "module_begin_end_pattern module_name module_name_lowercase =
     newline @
     ''  {'' @ newline @
     ''  begin: '(?i)^ *(['' @ backslash @ backslash @ ''$'' @ backslash @ backslash @ ''+-]?PROG)( +'' @ module_name @ '')( .*)?$'' @ apostrophe @ newline @
     ''  beginCaptures:'' @ newline @
     ''    1: name: 'support.class.'' @ module_name_lowercase @ ''.sofistik'' @ apostrophe @ newline @
     ''    2: name: 'support.class.'' @ module_name_lowercase @ ''.sofistik'' @ apostrophe @ newline @
     ''    3:'' @ newline @
     ''      name: 'comment.line.'' @ module_name_lowercase @ ''.sofistik'' @ apostrophe @ newline @
     ''      patterns: [{ include: 'text.todo' }]'' @ newline @
     ''  end: '(?i)(?=^ *['' @ backslash @ backslash @ ''$'' @ backslash @ backslash @ ''+-]?PROG'' @ backslash @ backslash @ ''b)'' @ apostrophe @ newline @
     ''  name: 'module.'' @ module_name_lowercase @ ''.sofistik'' @ apostrophe @ newline @
     ''  patterns: ['' @ newline @
     ''    {'include': '#'' @ module_name @ apostrophe @ ''}'' @ newline @
     ''    ]'' @ newline @
     ''  }''"

definition repository_entry_open :: "string \<Rightarrow> string" where
  "repository_entry_open module_name =
     newline @
     ''  '' @ module_name @ '': {'' @ newline @
     ''    patterns: ['' @ newline @
     ''      { include: '#preprocessorDefine' }''"

definition region_rule :: "string \<Rightarrow> string \<Rightarrow> string \<Rightarrow> string" where
  "region_rule command_name commands_regex_pattern subkeywords_regex_pattern =
     newline @
     ''      {'' @ newline @
     ''        begin: '(?i)(?:^ *|; *)('' @ command_name @ '')(?=;|$| )'' @ apostrophe @ newline @
     ''        beginCaptures:'' @ newline @
     ''          1: name: 'keyword.control.sofistik'' @ apostrophe @ newline @
     ''        end: '(?i)(?=(?:^ *|; *)(?:'' @ commands_regex_pattern @ '')|;|^ *['' @ backslash @ backslash @ ''$'' @ backslash @ backslash @ ''+-]?PROG'' @ backslash @ backslash @ ''b)'' @ apostrophe @ newline @
     ''        patterns: ['' @ newline @
     ''          {'' @ newline @
     ''            match: '(?i)(?<!'' @ backslash @ backslash @ ''w)('' @ subkeywords_regex_pattern @ '')(?!'' @ backslash @ backslash @ ''w)'' @ apostrophe @ newline @
     ''            name: 'entity.name.function.sofistik'' @ apostrophe @ newline @
     ''          }'' @ newline @
     ''          { include: '#normalText' }'' @ newline @
     ''        ]'' @ newline @
     ''      }''"

definition match_rule :: "string \<Rightarrow> string" where
  "match_rule command_name =
     newline @
     ''      {'' @ newline @
     ''        match: '(?i)(?:^ *|; *)('' @ command_name @ '')(?=;|$| )'' @ apostrophe @ newline @
     ''        captures:'' @ newline @
     ''          1: name: 'keyword.control.sofistik'' @ apostrophe @ newline @
     ''      }''"

definition repository_entry_close :: "string" where
  "repository_entry_close =
     newline @
     ''      { include: '#normalText' }'' @ newline @
     ''    ]'' @ newline @
     ''  }''"

definition grammar_header :: "string" where
  "grammar_header =
     newline @
     ''# ***** References *****'' @ newline @
     ''# https://pulsar-edit.dev/docs/launch-manual/sections/core-hacking/#creating-a-legacy-textmate-grammar'' @ newline @
     ''# https://gist.github.com/savetheclocktower/c9607b97477d4817911e4f2f8db89679'' @ newline @
     ''# http://manual.macromates.com/en/language_grammars/'' @ newline @
     ''# https://github.com/kkos/oniguruma/blob/master/doc/RE'' @ newline @
     ''# https://regex101.com/'' @ newline @
     newline @
     ''scopeName: 'source.sofistik'' @ apostrophe @ newline @
     ''name: 'SOFiSTiK'' @ apostrophe @ newline @
     ''fileTypes: ['dat','gra','grb','results']'' @ newline @
     ''patterns: ['' @ newline @
     ''  {'' @ newline @
     ''    match: '(?i)^@ *SOFiSTiK *('' @ backslash @ backslash @ ''d{4})(-'' @ backslash @ backslash @ ''d'' @ backslash @ backslash @ ''d?)? *$'' @ apostrophe @ newline @
     ''    name: 'meta.version.sofistik'' @ apostrophe @ newline @
     ''  }'' @ newline @
     ''  {'' @ newline @
     ''    match: '(?i)^@ .+'' @ apostrophe @ newline @
     ''    name: 'meta.sofistik'' @ apostrophe @ newline @
     ''  }'' @ newline @
     ''  { include: '#normalText' }'' @ newline"

definition repository_base_patterns :: "string" where
  "repository_base_patterns =
     newline @
     '']'' @ newline @
     ''repository:'' @ newline @
     ''  normalText: {'' @ newline @
     ''    patterns: ['' @ newline @
     ''      { include: '#textCommands' }'' @ newline @
     ''      { include: '#preprocessorDefine' }'' @ newline @
     ''      { include: '#preprocessorInclude' }'' @ newline @
     ''      { include: '#preprocessorApplyAndSys' }'' @ newline @
     ''      { include: '#preprocessorConditional' }'' @ newline @
     ''      { include: '#dollarVariableReference' }'' @ newline @
     ''      { include: '#textBlock' }'' @ newline @
     ''      { include: '#comments' }'' @ newline @
     ''      { include: '#stringDoubleQuoted' }'' @ newline @
     ''      { include: '#stringSingleQuoted' }'' @ newline @
     ''      { include: '#variableCommands' }'' @ newline @
     ''      { include: '#hashVariableReference' }'' @ newline @
     ''      { include: '#loopKeyword' }'' @ newline @
     ''      { include: '#controlFlowKeywords' }'' @ newline @
     ''      { include: '#expressionWithEquals' }'' @ newline @
     ''      { include: '#units' }'' @ newline @
     ''    ]'' @ newline @
     ''  }'' @ newline @
     ''  textCommands: {'' @ newline @
     ''    match: '(?i)(^ *)(HEAD|TXB|TXE)( .+?$| *$)'' @ apostrophe @ newline @
     ''    captures:'' @ newline @
     ''      1: name: 'support.type.sofistik'' @ apostrophe @ newline @
     ''      2: name: 'keyword.control.sofistik'' @ apostrophe @ newline @
     ''  }'' @ newline @
     ''  textBlock: {'' @ newline @
     ''    begin: '(?i)^[ ]*(<TEXT>|<TEXT,FILE='' @ backslash @ backslash @ ''+?(.+)>)(?= |$)'' @ apostrophe @ newline @
     ''    beginCaptures:'' @ newline @
     ''      1: name: 'support.function.sofistik'' @ apostrophe @ newline @
     ''      2: name: 'string.other.sofistik'' @ apostrophe @ newline @
     ''    end: '(?i)^[ ]*(<'' @ backslash @ backslash @ ''/TEXT>)(?= |$)'' @ apostrophe @ newline @
     ''    endCaptures:'' @ newline @
     ''      1: name: 'support.function.sofistik'' @ apostrophe @ newline @
     ''    patterns: ['' @ newline @
     ''      { include: '#dollarVariableReference' }'' @ newline @
     ''      { include: '#hashVariableReference' }'' @ newline @
     ''      { include: '#editBlock' }'' @ newline @
     ''    ]'' @ newline @
     ''  }'' @ newline @
     ''  editBlock: {'' @ newline @
     ''    begin: '(?i)(<EDIT:.+?>)'' @ apostrophe @ newline @
     ''    beginCaptures:'' @ newline @
     ''      1: name: 'support.function.sofistik'' @ apostrophe @ newline @
     ''    end: '(?i)(<'' @ backslash @ backslash @ ''/EDIT>)'' @ apostrophe @ newline @
     ''    endCaptures:'' @ newline @
     ''      1: name: 'support.function.sofistik'' @ apostrophe @ newline @
     ''    patterns: ['' @ newline @
     ''      { include: '#hashVariableReference' }'' @ newline @
     ''      { include: '#dollarVariableReference' }'' @ newline @
     ''    ]'' @ newline @
     ''  }'' @ newline @
     ''  preprocessorDefine: {'' @ newline @
     ''    match: '(?i)^[ ]*(#DEFINE|#ENDDEF) *(.+?)?(?: *= *(.*))?$'' @ apostrophe @ newline @
     ''    captures:'' @ newline @
     ''      1: name: 'entity.name.section.sofistik'' @ apostrophe @ newline @
     ''      2: name: 'string.other.sofistik'' @ apostrophe @ newline @
     ''      3: patterns: ['' @ newline @
     ''        { include: '#dollarVariableReference' }'' @ newline @
     ''        { include: '#comments' }'' @ newline @
     ''        { include: '#stringDoubleQuoted' }'' @ newline @
     ''        { include: '#stringSingleQuoted' }'' @ newline @
     ''        { include: '#variableCommands' }'' @ newline @
     ''        { include: '#hashVariableReference' }'' @ newline @
     ''        { include: '#loopKeyword' }'' @ newline @
     ''        { include: '#controlFlowKeywords' }'' @ newline @
     ''        { include: '#expressionWithEquals' }'' @ newline @
     ''        { include: '#units' }'' @ newline @
     ''      ]'' @ newline @
     ''      4: name: 'entity.name.section.sofistik'' @ apostrophe @ newline @
     ''  }'' @ newline @
     ''  preprocessorInclude: {'' @ newline @
     ''    match: '(?i)^[ ]*(#INCLUDE) +(.+)'' @ apostrophe @ newline @
     ''    captures:'' @ newline @
     ''      1: name: 'entity.name.section.sofistik'' @ apostrophe @ newline @
     ''      2:'' @ newline @
     ''        name: 'string.other.sofistik'' @ apostrophe @ newline @
     ''        patterns: [{ include: '#dollarVariableReference' }]'' @ newline @
     ''  }'' @ newline @
     ''  preprocessorApplyAndSys: {'' @ newline @
     ''    match: '(?i)^[ ]*(['' @ backslash @ backslash @ ''$'' @ backslash @ backslash @ ''+-]?APPLY|['' @ backslash @ backslash @ ''+-]?SYS)( +.+)'' @ apostrophe @ newline @
     ''    captures:'' @ newline @
     ''      1: name: 'support.class.sofistik'' @ apostrophe @ newline @
     ''      2:'' @ newline @
     ''        name: 'string.other.sofistik'' @ apostrophe @ newline @
     ''        patterns: ['' @ newline @
     ''          { include: '#dollarVariableReference' }'' @ newline @
     ''          { include: '#comments' }'' @ newline @
     ''        ]'' @ newline @
     ''  }'' @ newline @
     ''  preprocessorConditional: {'' @ newline @
     ''    match: '(?i)^[ ]*(#IF|#ELSE|#ENDIF)'' @ apostrophe @ newline @
     ''    captures:'' @ newline @
     ''      1: name: 'entity.name.section.sofistik'' @ apostrophe @ newline @
     ''  }'' @ newline @
     ''  dollarVariableReference: {'' @ newline @
     ''    match: '(;)?[ ]*('' @ backslash @ backslash @ ''$'' @ backslash @ backslash @ ''('' @ backslash @ backslash @ ''S+?'' @ backslash @ backslash @ ''))'' @ apostrophe @ newline @
     ''    captures:'' @ newline @
     ''      1: name: 'support.type.sofistik'' @ apostrophe @ newline @
     ''      2: name: 'variable.other.sofistik'' @ apostrophe @ newline @
     ''  }'' @ newline @
     ''  comments: {'' @ newline @
     ''    match: '(?i)(?:!|'' @ backslash @ backslash @ ''/'' @ backslash @ backslash @ ''/|'' @ backslash @ backslash @ ''$(?!PROG))(.*)'' @ apostrophe @ newline @
     ''    name: 'comment.line.sofistik'' @ apostrophe @ newline @
     ''    captures:'' @ newline @
     ''      1: patterns: [{ include: 'text.todo' }]'' @ newline @
     ''  }'' @ newline @
     ''  stringDoubleQuoted: {'' @ newline @
     ''    match: '' @ apostrophe @ backslash @ backslash @ dquote @ ''(.*?)'' @ backslash @ backslash @ dquote @ apostrophe @ newline @
     ''    name: 'string.double.sofistik'' @ apostrophe @ newline @
     ''    captures:'' @ newline @
     ''      1: patterns: [{ include: '#dollarVariableReference' }]'' @ newline @
     ''  }'' @ newline @
     ''  stringSingleQuoted: {'' @ newline @
     ''    match: '' @ dquote @ backslash @ backslash @ apostrophe @ ''(.*?)'' @ backslash @ backslash @ apostrophe @ dquote @ newline @
     ''    name: 'string.single.sofistik'' @ apostrophe @ newline @
     ''    captures:'' @ newline @
     ''      1: patterns: [{ include: '#dollarVariableReference' }]'' @ newline @
     ''  }'' @ newline @
     ''  variableCommands: {'' @ newline @
     ''    match: '(?i)(^|;)[ ]*(LET|STO|DEL|DBG|PRT)(?!'' @ backslash @ backslash @ ''w)'' @ apostrophe @ newline @
     ''    captures:'' @ newline @
     ''      1: name: 'support.type.sofistik'' @ apostrophe @ newline @
     ''      2: name: 'keyword.control.sofistik'' @ apostrophe @ newline @
     ''  }'' @ newline @
     ''  hashVariableReference: {'' @ newline @
     ''    match: '(#'' @ backslash @ backslash @ ''w+|#'' @ backslash @ backslash @ ''('' @ backslash @ backslash @ ''w+(?:,'' @ backslash @ backslash @ ''d'' @ backslash @ backslash @ ''.'' @ backslash @ backslash @ ''d)?'' @ backslash @ backslash @ ''))'' @ apostrophe @ newline @
     ''    name: 'variable.other.sofistik'' @ apostrophe @ newline @
     ''  }'' @ newline @
     ''  loopKeyword: {'' @ newline @
     ''    match: '(?i)(^|;)[ ]*(LOOP)(?!'' @ backslash @ backslash @ ''w)'' @ apostrophe @ newline @
     ''    captures:'' @ newline @
     ''      1: name: 'support.type.sofistik'' @ apostrophe @ newline @
     ''      2: name: 'keyword.control.sofistik'' @ apostrophe @ newline @
     ''  }'' @ newline @
     ''  controlFlowKeywords: {'' @ newline @
     ''    match: '(?i)(^|;)[ ]*(IF|ELSEIF|ELSE|ENDIF|ENDLOOP|END)(?='' @ backslash @ backslash @ ''s|$)'' @ apostrophe @ newline @
     ''    captures:'' @ newline @
     ''      1: name: 'support.type.sofistik'' @ apostrophe @ newline @
     ''      2: name: 'keyword.control.sofistik'' @ apostrophe @ newline @
     ''  }'' @ newline @
     ''  expressionWithEquals: {'' @ newline @
     ''    match: '(?<='' @ backslash @ backslash @ ''s|^)(='' @ backslash @ backslash @ ''S+)'' @ apostrophe @ newline @
     ''    captures:'' @ newline @
     ''      1:'' @ newline @
     ''        name: 'entity.name.function.sofistik'' @ apostrophe @ newline @
     ''        patterns: [{'include': '#hashVariableReference'}]'' @ newline @
     ''  }'' @ newline @
     ''  units: {'' @ newline @
     ''    match: '(?<='' @ backslash @ backslash @ ''S)'' @ backslash @ backslash @ ''[.*?'' @ backslash @ backslash @ '']'' @ apostrophe @ newline @
     ''    name: 'constant.other.sofistik'' @ apostrophe @ newline @
     ''  }'' @ newline"

section \<open>\<^verbatim>\<open>generate_module_patterns\<close> and \<^verbatim>\<open>generate_grammar\<close>\<close>

text \<open>
  \<^verbatim>\<open>sorted(xs, key=lambda x: (-len(x), x))\<close> calls \<^verbatim>\<open>len\<close> on every element and raises
  \<^verbatim>\<open>TypeError\<close> on one that is not a string. A command name reaches an f-string only
  after the sort of all the module's command names has succeeded, so it is a string there;
  \<open>format_cell\<close> is \<^verbatim>\<open>str()\<close> on the three kinds of cell all the same.
\<close>

fun cell_strings :: "cell list \<Rightarrow> error + string list" where
  "cell_strings [] = Inr []"
| "cell_strings (x # xs) =
     (case x of
        PyStr s \<Rightarrow> (case cell_strings xs of Inl e \<Rightarrow> Inl e | Inr ss \<Rightarrow> Inr (s # ss))
      | _ \<Rightarrow> Inl TypeError)"

definition py_sorted :: "cell list \<Rightarrow> error + string list" where
  "py_sorted xs = (case cell_strings xs of Inl e \<Rightarrow> Inl e | Inr ss \<Rightarrow> Inr (sort_keywords ss))"

function digits :: "nat \<Rightarrow> string" where
  "digits n = (if n < 10 then [char_of (48 + n)] else digits (n div 10) @ [char_of (48 + n mod 10)])"
  by pat_completeness auto
termination
  by (relation "measure id") auto

declare digits.simps [simp del]

definition format_cell :: "cell \<Rightarrow> string" where
  "format_cell x =
     (case x of
        PyStr s \<Rightarrow> s
      | PyNone \<Rightarrow> ''None''
      | PyInt n \<Rightarrow> (if n < 0 then ''-'' @ digits (nat (- n)) else digits (nat n)))"

definition command_rule ::
  "(string \<Rightarrow> string) \<Rightarrow> string \<Rightarrow> cell \<times> cell list \<Rightarrow> error + string" where
  "command_rule str_upper commands_regex_pattern item =
     (let command_name = fst item; command_subkeywords = snd item in
      if command_subkeywords \<noteq> [] then
        (case py_sorted command_subkeywords of
           Inl e \<Rightarrow> Inl e
         | Inr sorted_subkeywords \<Rightarrow>
            (case optimize_pattern str_upper sorted_subkeywords of
               Inl e \<Rightarrow> Inl e
             | Inr subkeywords_regex_pattern \<Rightarrow>
                 Inr (region_rule (format_cell command_name) commands_regex_pattern
                        subkeywords_regex_pattern)))
      else Inr (match_rule (format_cell command_name)))"

fun command_rules ::
  "(string \<Rightarrow> string) \<Rightarrow> string \<Rightarrow> (cell \<times> cell list) list \<Rightarrow> string \<Rightarrow> error + string" where
  "command_rules str_upper commands_regex_pattern [] repository_entry = Inr repository_entry"
| "command_rules str_upper commands_regex_pattern (item # items) repository_entry =
     (case command_rule str_upper commands_regex_pattern item of
        Inl e \<Rightarrow> Inl e
      | Inr rule \<Rightarrow>
          command_rules str_upper commands_regex_pattern items (repository_entry @ rule))"

definition module_repository ::
  "(string \<Rightarrow> string) \<Rightarrow> string \<Rightarrow> (cell \<times> cell list) list \<Rightarrow> error + string" where
  "module_repository str_upper module_name module_commands =
     (case py_sorted (map fst module_commands) of
        Inl e \<Rightarrow> Inl e
      | Inr sorted_commands \<Rightarrow>
         (case optimize_pattern str_upper sorted_commands of
            Inl e \<Rightarrow> Inl e
          | Inr commands_regex_pattern \<Rightarrow>
             (case command_rules str_upper commands_regex_pattern module_commands
                     (repository_entry_open module_name) of
                Inl e \<Rightarrow> Inl e
              | Inr repository_entry \<Rightarrow> Inr (repository_entry @ repository_entry_close))))"

fun module_patterns_loop ::
  "(string \<Rightarrow> string) \<Rightarrow> (string \<Rightarrow> string) \<Rightarrow>
   (string \<times> (cell \<times> cell list) list) list \<Rightarrow> string list \<times> string list \<Rightarrow>
   error + string list \<times> string list" where
  "module_patterns_loop str_upper str_lower [] acc = Inr acc"
| "module_patterns_loop str_upper str_lower ((module_name, module_commands) # rest) acc =
     (if module_name = ''BASIC'' then module_patterns_loop str_upper str_lower rest acc
      else (case module_repository str_upper module_name module_commands of
              Inl e \<Rightarrow> Inl e
            | Inr repository_entry \<Rightarrow>
                module_patterns_loop str_upper str_lower rest
                  (fst acc @ [module_begin_end_pattern module_name (str_lower module_name)],
                   snd acc @ [repository_entry])))"

definition generate_module_patterns ::
  "(string \<Rightarrow> string) \<Rightarrow> (string \<Rightarrow> string) \<Rightarrow>
   (string \<times> (cell \<times> cell list) list) list \<Rightarrow> error + string list \<times> string list" where
  "generate_module_patterns str_upper str_lower keywords_data =
     module_patterns_loop str_upper str_lower keywords_data ([], [])"

definition generate_grammar ::
  "(string \<Rightarrow> string) \<Rightarrow> (string \<Rightarrow> string) \<Rightarrow>
   (string \<times> (cell \<times> cell list) list) list \<Rightarrow> error + string" where
  "generate_grammar str_upper str_lower keywords_data =
     (case generate_module_patterns str_upper str_lower keywords_data of
        Inl e \<Rightarrow> Inl e
      | Inr (module_patterns, repository_patterns) \<Rightarrow>
          Inr (grammar_header @ concat module_patterns @ repository_base_patterns @
               concat repository_patterns))"

text \<open>
  \<^verbatim>\<open>main\<close> writes \<^verbatim>\<open>complete_grammar[1:]\<close> and a line feed to the grammar file.
\<close>

definition grammar_file ::
  "(string \<Rightarrow> string) \<Rightarrow> (string \<Rightarrow> string) \<Rightarrow> (string \<times> cell list list) list \<Rightarrow>
   error + string" where
  "grammar_file str_upper str_lower workbook =
     (case generate_grammar str_upper str_lower (load_keywords workbook) of
        Inl e \<Rightarrow> Inl e
      | Inr complete_grammar \<Rightarrow> Inr (drop 1 complete_grammar @ newline))"

section \<open>The patterns as regular expressions\<close>

text \<open>
  What a pattern matches is decided by the regular-expression engine of the editor, which
  is not part of the builder. The engine is modelled on the fragment that
  \<^verbatim>\<open>optimize_pattern\<close> can emit from keywords without metacharacters: literal characters,
  alternation \<^verbatim>\<open>|\<close> and the non-capturing group \<^verbatim>\<open>(?:\<close> ... \<^verbatim>\<open>)\<close>. \<open>parse_re\<close>
  reads a pattern left to right with a stack of open groups; every other metacharacter
  makes it give up (\<open>None\<close>). \<open>rmatch casefold r s\<close> lists, in the order a backtracking engine
  tries them, the rests of \<open>s\<close> left after each way of matching \<open>r\<close> at the start of \<open>s\<close>.
  The parameter \<open>casefold\<close> is the engine's case folding: two characters match when they have
  the same fold. Under the flag \<^verbatim>\<open>(?i)\<close>, which every emitted rule sets, \<open>casefold\<close> sends a
  character to the representative of the characters that differ from it in case only; for a
  case-sensitive match it is the identity.
\<close>

datatype regex = Lit char | Seq "regex list" | Alt "regex list"

definition meta_chars :: string where
  "meta_chars = ''|()[]{}.*+?^$'' @ backslash"

definition ceq :: "(char \<Rightarrow> char) \<Rightarrow> char \<Rightarrow> char \<Rightarrow> bool" where
  "ceq casefold a b = (casefold a = casefold b)"

fun parse_re :: "(regex list \<times> regex list) list \<Rightarrow> string \<Rightarrow> regex option" where
  "parse_re st [] =
     (case st of [(alts, cur)] \<Rightarrow> Some (Alt (alts @ [Seq cur])) | _ \<Rightarrow> None)"
| "parse_re st (c # cs) =
     (case st of
        [] \<Rightarrow> None
      | (alts, cur) # st' \<Rightarrow>
          if c = CHR ''|'' then parse_re ((alts @ [Seq cur], []) # st') cs
          else if c = CHR ''('' then
            (case cs of
               a # b # cs' \<Rightarrow>
                 if a = CHR ''?'' \<and> b = CHR '':'' then parse_re (([], []) # (alts, cur) # st') cs'
                 else None
             | _ \<Rightarrow> None)
          else if c = CHR '')'' then
            (case st' of
               [] \<Rightarrow> None
             | (alts', cur') # st'' \<Rightarrow>
                 parse_re ((alts', cur' @ [Alt (alts @ [Seq cur])]) # st'') cs)
          else if c \<in> set meta_chars then None
          else parse_re ((alts, cur @ [Lit c]) # st') cs)"

definition parse_pattern :: "string \<Rightarrow> regex option" where
  "parse_pattern p = parse_re [([], [])] p"

fun rmatch :: "(char \<Rightarrow> char) \<Rightarrow> regex \<Rightarrow> string \<Rightarrow> string list"
  and rmatch_seq :: "(char \<Rightarrow> char) \<Rightarrow> regex list \<Rightarrow> string \<Rightarrow> string list"
  and rmatch_alt :: "(char \<Rightarrow> char) \<Rightarrow> regex list \<Rightarrow> string \<Rightarrow> string list" where
  "rmatch casefold (Lit c) s = (case s of [] \<Rightarrow> [] | x # xs \<Rightarrow> if ceq casefold c x then [xs] else [])"
| "rmatch casefold (Seq rs) s = rmatch_seq casefold rs s"
| "rmatch casefold (Alt rs) s = rmatch_alt casefold rs s"
| "rmatch_seq casefold [] s = [s]"
| "rmatch_seq casefold (r # rs) s = concat (map (rmatch_seq casefold rs) (rmatch casefold r s))"
| "rmatch_alt casefold [] s = []"
| "rmatch_alt casefold (r # rs) s = rmatch casefold r s @ rmatch_alt casefold rs s"

text \<open>
  A string is matched as a whole token when some way of matching leaves nothing over; the
  first match is the text consumed by the first way the engine finds.
\<close>

definition full_match :: "(char \<Rightarrow> char) \<Rightarrow> string \<Rightarrow> string \<Rightarrow> bool" where
  "full_match casefold p s =
     (case parse_pattern p of None \<Rightarrow> False | Some r \<Rightarrow> [] \<in> set (rmatch casefold r s))"

definition first_match :: "(char \<Rightarrow> char) \<Rightarrow> string \<Rightarrow> string \<Rightarrow> string option" where
  "first_match casefold p s =
     (case parse_pattern p of
        None \<Rightarrow> None
      | Some r \<Rightarrow>
          (case rmatch casefold r s of
             [] \<Rightarrow> None
           | rest # _ \<Rightarrow> Some (take (length s - length rest) s)))"

section \<open>Notions the properties are stated with\<close>

text \<open>
  The table as a pure fold over the cells of a sheet in reading order, carrying the
  partial table and the key of the current command: a populated cell of column 0 binds
  its value to an empty list and becomes the current command, a populated cell of a later
  column is appended to the list of the current command (and is lost when there is none).
\<close>

definition dict_app :: "('k \<times> 'v list) list \<Rightarrow> 'k \<Rightarrow> 'v \<Rightarrow> ('k \<times> 'v list) list" where
  "dict_app d k v = map (\<lambda>(k', l). (k', if k' = k then l @ [v] else l)) d"

definition table_step ::
  "nat \<times> cell \<Rightarrow> (cell \<times> cell list) list \<times> cell option \<Rightarrow>
   (cell \<times> cell list) list \<times> cell option" where
  "table_step ic acc =
     (if skip_cell (snd ic) then acc
      else if fst ic = 0 then (dict_set (fst acc) (snd ic) [], Some (snd ic))
      else (case snd acc of
              None \<Rightarrow> acc
            | Some k \<Rightarrow> (dict_app (fst acc) k (snd ic), Some k)))"

definition cells :: "cell list list \<Rightarrow> (nat \<times> cell) list" where
  "cells rows = concat (map (enumerate 0) rows)"

definition table_fold :: "cell list list \<Rightarrow> (cell \<times> cell list) list \<times> cell option" where
  "table_fold rows = fold table_step (cells rows) ([], None)"

text \<open>The invariant of the loader's state, and the command whose list the loop variable points to.\<close>

definition state_inv :: "load_state \<Rightarrow> bool" where
  "state_inv st =
     (distinct (map fst (module_keywords st)) \<and> distinct (map snd (module_keywords st)) \<and>
      (\<forall>a \<in> snd ` set (module_keywords st). a < length (heap st)) \<and>
      current_command_subkeywords st < length (heap st))"

definition cur_key :: "load_state \<Rightarrow> cell option" where
  "cur_key st =
     map_of (map (\<lambda>(k, a). (a, k)) (module_keywords st)) (current_command_subkeywords st)"

text \<open>The populated cells of a row, the command cells of a sheet, and the last of them.\<close>

definition populated :: "cell list \<Rightarrow> cell list" where
  "populated xs = filter (\<lambda>v. \<not> skip_cell v) xs"

definition command_cells :: "cell list list \<Rightarrow> cell list" where
  "command_cells rows = populated (map hd (filter (\<lambda>r. r \<noteq> []) rows))"

definition last_command :: "cell list list \<Rightarrow> cell option" where
  "last_command rows =
     (if command_cells rows = [] then None else Some (last (command_cells rows)))"

text \<open>
  The fold as the specification words it: the first populated cell of a row, in whatever
  column, starts a command, and the other populated cells of that row are its sub-keywords.
\<close>

definition first_populated_step ::
  "cell list \<Rightarrow> (cell \<times> cell list) list \<Rightarrow> (cell \<times> cell list) list" where
  "first_populated_step row table =
     (case populated row of
        [] \<Rightarrow> table
      | command # subkeywords \<Rightarrow>
          fold (\<lambda>v d. dict_app d command v) subkeywords (dict_set table command []))"

definition first_populated_fold :: "cell list list \<Rightarrow> (cell \<times> cell list) list" where
  "first_populated_fold rows = fold first_populated_step rows []"

text \<open>The first populated cell of a sheet is a sub-keyword cell: it sits in a column after the first.\<close>

fun orphan_first :: "(nat \<times> cell) list \<Rightarrow> bool" where
  "orphan_first [] = False"
| "orphan_first ((i, v) # xs) = (if skip_cell v then orphan_first xs else 0 < i)"

text \<open>
  The pattern as the specification words it: the keywords are partitioned by their
  upper-cased first character; a group is sorted by descending length, then
  lexicographically; one group alone gives the plain alternation of the sorted group;
  several groups give one alternative per group, in the order of their keys: the keyword
  itself for a group of one, and otherwise the key character followed by the alternation
  of the keywords without their first character.
\<close>

definition first_upper :: "(string \<Rightarrow> string) \<Rightarrow> string \<Rightarrow> string" where
  "first_upper str_upper w = str_upper (take 1 w)"

definition keyword_group :: "(string \<Rightarrow> string) \<Rightarrow> string list \<Rightarrow> string \<Rightarrow> string list" where
  "keyword_group str_upper keyword_list character =
     sort_keywords (filter (\<lambda>w. first_upper str_upper w = character) keyword_list)"

definition group_alternative :: "(string \<Rightarrow> string) \<Rightarrow> string list \<Rightarrow> string \<Rightarrow> string" where
  "group_alternative str_upper keyword_list character =
     (let g = keyword_group str_upper keyword_list character in
      if length g = 1 then hd g
      else ''(?:'' @ character @ ''(?:'' @ join ''|'' (map tl g) @ ''))'')"

definition group_keys :: "(string \<Rightarrow> string) \<Rightarrow> string list \<Rightarrow> string list" where
  "group_keys str_upper keyword_list = sort (remdups (map (first_upper str_upper) keyword_list))"

definition optimize_spec :: "(string \<Rightarrow> string) \<Rightarrow> string list \<Rightarrow> string" where
  "optimize_spec str_upper keyword_list =
     (if keyword_list = [] then []
      else if length (group_keys str_upper keyword_list) = 1
        then join ''|'' (sort_keywords keyword_list)
      else join ''|'' (map (group_alternative str_upper keyword_list)
                         (group_keys str_upper keyword_list)))"

text \<open>
  A table of strings: in every module but \<^verbatim>\<open>BASIC\<close>, command names and sub-keywords are
  non-empty strings. Generation returns on these tables and raises on all others; the
  rules of a module are the following texts.
\<close>

definition is_keyword :: "cell \<Rightarrow> bool" where
  "is_keyword x = (case x of PyStr s \<Rightarrow> s \<noteq> [] | _ \<Rightarrow> False)"

definition string_commands :: "(cell \<times> cell list) list \<Rightarrow> bool" where
  "string_commands module_commands =
     list_all (\<lambda>(c, subs). is_keyword c \<and> list_all is_keyword subs) module_commands"

definition string_table :: "(string \<times> (cell \<times> cell list) list) list \<Rightarrow> bool" where
  "string_table keywords_data =
     list_all (\<lambda>(m, module_commands). m = ''BASIC'' \<or> string_commands module_commands) keywords_data"

definition scoped_modules ::
  "(string \<times> (cell \<times> cell list) list) list \<Rightarrow> (string \<times> (cell \<times> cell list) list) list" where
  "scoped_modules keywords_data = filter (\<lambda>(m, module_commands). m \<noteq> ''BASIC'') keywords_data"

definition module_region ::
  "(string \<Rightarrow> string) \<Rightarrow> string \<times> (cell \<times> cell list) list \<Rightarrow> string" where
  "module_region str_lower mc = module_begin_end_pattern (fst mc) (str_lower (fst mc))"

definition keyword_pattern :: "(string \<Rightarrow> string) \<Rightarrow> cell list \<Rightarrow> string" where
  "keyword_pattern str_upper xs = optimize_spec str_upper (sort_keywords (map format_cell xs))"

definition scoped_rule :: "(string \<Rightarrow> string) \<Rightarrow> string \<Rightarrow> cell \<times> cell list \<Rightarrow> string" where
  "scoped_rule str_upper commands_regex_pattern item =
     (if snd item = [] then match_rule (format_cell (fst item))
      else region_rule (format_cell (fst item)) commands_regex_pattern
             (keyword_pattern str_upper (snd item)))"

definition module_rules ::
  "(string \<Rightarrow> string) \<Rightarrow> string \<times> (cell \<times> cell list) list \<Rightarrow> string" where
  "module_rules str_upper mc =
     repository_entry_open (fst mc) @
     concat (map (scoped_rule str_upper (keyword_pattern str_upper (map fst (snd mc)))) (snd mc)) @
     repository_entry_close"

text \<open>
  The regular expressions of a module's region rule: the \<^verbatim>\<open>PROG\<close> line that names the
  module, and the lookahead for the next \<^verbatim>\<open>PROG\<close> line.
\<close>

definition module_begin :: "string \<Rightarrow> string" where
  "module_begin module_name =
     ''(?i)^ *(['' @ backslash @ backslash @ ''$'' @ backslash @ backslash @ ''+-]?PROG)( +'' @
     module_name @ '')( .*)?$''"

definition module_end :: string where
  "module_end =
     ''(?i)(?=^ *['' @ backslash @ backslash @ ''$'' @ backslash @ backslash @ ''+-]?PROG'' @
     backslash @ backslash @ ''b)''"





text \<open>
  \<open>no_meta w\<close>: the keyword holds no metacharacter. \<open>wprefix casefold w s\<close>: the keyword
  \<open>w\<close> matches a prefix of the text \<open>s\<close>, character by character up to \<open>casefold\<close>.
  \<open>alternatives\<close> lists the keywords in the order the optimized pattern tries them: group
  after group in the order of the keys, each group longest first. \<open>items_of\<close> is the
  parsed alternative of a group.
\<close>

fun wprefix :: "(char \<Rightarrow> char) \<Rightarrow> string \<Rightarrow> string \<Rightarrow> bool" where
  "wprefix casefold [] s = True"
| "wprefix casefold (c # w) [] = False"
| "wprefix casefold (c # w) (x # s) = (ceq casefold c x \<and> wprefix casefold w s)"

definition items_of :: "(string \<Rightarrow> string) \<Rightarrow> string list \<Rightarrow> string \<Rightarrow> regex list" where
  "items_of str_upper keyword_list character =
     (let g = keyword_group str_upper keyword_list character in
      if length g = 1 then map Lit (hd g)
      else [Alt [Seq (map Lit character @ [Alt (map (\<lambda>w. Seq (map Lit (tl w))) g)])]])"

definition alternatives :: "(string \<Rightarrow> string) \<Rightarrow> string list \<Rightarrow> string list" where
  "alternatives str_upper keyword_list =
     concat (map (keyword_group str_upper keyword_list) (group_keys str_upper keyword_list))"

definition no_meta :: "string \<Rightarrow> bool" where
  "no_meta w = list_all (\<lambda>c. c \<notin> set meta_chars) w"

text \<open>
  A plain keyword, for a case map \<open>str_upper\<close> of Python and a case folding \<open>casefold\<close> of
  the engine: a non-empty string without metacharacters whose upper-cased first character
  is the fold of that first character, a fold that folds to itself and is no metacharacter.
  For a case-sensitive match (\<open>casefold\<close> the identity) this says that \<^verbatim>\<open>str.upper\<close> leaves
  the first character as it is.
\<close>

definition plain_keyword :: "(string \<Rightarrow> string) \<Rightarrow> (char \<Rightarrow> char) \<Rightarrow> string \<Rightarrow> bool" where
  "plain_keyword str_upper casefold w =
     (w \<noteq> [] \<and> no_meta w \<and> str_upper (take 1 w) = [casefold (hd w)] \<and>
      casefold (casefold (hd w)) = casefold (hd w) \<and> casefold (hd w) \<notin> set meta_chars)"

text \<open>
  The case maps at ASCII text, for the evaluations at concrete inputs below, all of which
  are ASCII: there \<^verbatim>\<open>str.upper\<close> is \<open>map ascii_upper\<close> and \<^verbatim>\<open>str.lower\<close> is
  \<open>map ascii_lower\<close>, and a match under \<^verbatim>\<open>(?i)\<close> identifies a letter with its other case,
  which is the folding \<open>ascii_upper\<close>. No general theorem uses these two definitions.
\<close>

definition ascii_upper :: "char \<Rightarrow> char" where
  "ascii_upper c =
     (case map_of (zip ''abcdefghijklmnopqrstuvwxyz'' ''ABCDEFGHIJKLMNOPQRSTUVWXYZ'') c of
        None \<Rightarrow> c | Some u \<Rightarrow> u)"

definition ascii_lower :: "char \<Rightarrow> char" where
  "ascii_lower c =
     (case map_of (zip ''ABCDEFGHIJKLMNOPQRSTUVWXYZ'' ''abcdefghijklmnopqrstuvwxyz'') c of
        None \<Rightarrow> c | Some l \<Rightarrow> l)"

section \<open>The loader is the fold over the cells\<close>

subsection \<open>Dictionary updates\<close>

lemma dict_set_keys:
  "map fst (dict_set d k v) = (if k \<in> fst ` set d then map fst d else map fst d @ [k])"
  by (induction d) force+

lemma dict_set_distinct: "distinct (map fst d) \<Longrightarrow> distinct (map fst (dict_set d k v))"
  by (simp add: dict_set_keys)

lemma dict_set_vals: "set (dict_set d k v) \<subseteq> insert (k, v) (set d)"
  by (induction d) (auto split: if_splits)

lemma dict_set_distinct_vals:
  "distinct (map snd d) \<Longrightarrow> a \<notin> snd ` set d \<Longrightarrow> distinct (map snd (dict_set d k a))"
proof (induction d)
  case Nil
  then show ?case by simp
next
  case (Cons p d)
  have "snd ` set (dict_set d k a) \<subseteq> insert a (snd ` set d)"
    using dict_set_vals [of d k a] by force
  with Cons show ?case by (cases p) auto
qed

lemma dict_set_map:
  "map (\<lambda>(k, a). (k, f a)) (dict_set d k v) = dict_set (map (\<lambda>(k, a). (k, f a)) d) k (f v)"
  by (induction d) auto

lemma dict_set_lookup_fresh:
  "a \<notin> snd ` set d \<Longrightarrow> map_of (map (\<lambda>(k, a). (a, k)) (dict_set d k a)) a = Some k"
  by (induction d) (auto simp: image_iff)

subsection \<open>The heap model simulates the pure fold\<close>

lemma distinct_snd_unique:
  "distinct (map snd d) \<Longrightarrow> (k, a) \<in> set d \<Longrightarrow> (k', a) \<in> set d \<Longrightarrow> k = k'"
  by (induction d) (auto simp: image_iff)

lemma state_inv_init: "state_inv init_state"
  by (simp add: state_inv_def init_state_def)

lemma cur_key_init: "cur_key init_state = None"
  by (simp add: cur_key_def init_state_def)

lemma read_table_init: "read_table init_state = []"
  by (simp add: read_table_def init_state_def)

lemma load_cell_inv:
  assumes "state_inv st"
  shows "state_inv (load_cell ic st)"
proof -
  let ?d = "module_keywords st"
  have fresh: "length (heap st) \<notin> snd ` set ?d"
    using assms by (auto simp: state_inv_def)
  have sub: "snd ` set (dict_set ?d (snd ic) (length (heap st))) \<subseteq> insert (length (heap st)) (snd ` set ?d)"
    using dict_set_vals [of ?d "snd ic" "length (heap st)"] by force
  have "\<forall>a \<in> snd ` set (dict_set ?d (snd ic) (length (heap st))). a < Suc (length (heap st))"
  proof
    fix a assume "a \<in> snd ` set (dict_set ?d (snd ic) (length (heap st)))"
    with sub have "a = length (heap st) \<or> a \<in> snd ` set ?d" by blast
    then show "a < Suc (length (heap st))"
      using assms by (auto simp: state_inv_def less_Suc_eq)
  qed
  then show ?thesis
    using assms fresh
    by (simp add: load_cell_def Let_def state_inv_def dict_set_distinct dict_set_distinct_vals)
qed

lemma load_cell_sim:
  assumes inv: "state_inv st"
  shows "(read_table (load_cell ic st), cur_key (load_cell ic st)) =
         table_step ic (read_table st, cur_key st)"
proof (cases "skip_cell (snd ic)")
  case True
  then show ?thesis by (simp add: load_cell_def table_step_def)
next
  case populated: False
  let ?d = "module_keywords st"
  let ?h = "heap st"
  let ?c = "current_command_subkeywords st"
  show ?thesis
  proof (cases "fst ic = 0")
    case True
    have fresh: "length ?h \<notin> snd ` set ?d"
      using inv by (auto simp: state_inv_def)
    have old: "map (\<lambda>(k, a). (k, (?h @ [[]]) ! a)) ?d = map (\<lambda>(k, a). (k, ?h ! a)) ?d"
      using inv by (auto simp: state_inv_def nth_append)
    have "map (\<lambda>(k, a). (k, (?h @ [[]]) ! a)) (dict_set ?d (snd ic) (length ?h)) =
          dict_set (map (\<lambda>(k, a). (k, ?h ! a)) ?d) (snd ic) []"
      by (simp add: dict_set_map old)
    then show ?thesis
      using populated True fresh
      by (simp add: load_cell_def table_step_def Let_def read_table_def cur_key_def
                    dict_set_lookup_fresh)
  next
    case later: False
    have st': "load_cell ic st = st\<lparr>heap := ?h[?c := (?h ! ?c) @ [snd ic]]\<rparr>"
      using populated later by (simp add: load_cell_def Let_def)
    have clt: "?c < length ?h" using inv by (simp add: state_inv_def)
    show ?thesis
    proof (cases "cur_key st")
      case None
      then have "?c \<notin> snd ` set ?d"
        by (force simp: cur_key_def map_of_eq_None_iff image_iff)
      then have "map (\<lambda>(k, a). (k, ?h[?c := (?h ! ?c) @ [snd ic]] ! a)) ?d =
                 map (\<lambda>(k, a). (k, ?h ! a)) ?d"
        by (auto simp: image_iff)
      then show ?thesis
        using populated later None
        by (simp add: st' table_step_def read_table_def cur_key_def)
    next
      case (Some k)
      then have mem: "(k, ?c) \<in> set ?d"
        by (auto simp: cur_key_def dest!: map_of_SomeD)
      have iff: "(a = ?c) = (k' = k)" if "(k', a) \<in> set ?d" for k' a
      proof
        assume "a = ?c"
        with that mem inv show "k' = k"
          by (auto simp: state_inv_def dest: distinct_snd_unique)
      next
        assume "k' = k"
        with that mem inv show "a = ?c"
          by (auto simp: state_inv_def dest: eq_key_imp_eq_value)
      qed
      have "map (\<lambda>(k, a). (k, ?h[?c := (?h ! ?c) @ [snd ic]] ! a)) ?d =
            dict_app (map (\<lambda>(k, a). (k, ?h ! a)) ?d) k (snd ic)"
        unfolding dict_app_def map_map
      proof (rule map_cong [OF refl])
        fix p assume p: "p \<in> set ?d"
        obtain k' a where pa: "p = (k', a)" by (cases p)
        with p iff have "(a = ?c) = (k' = k)" by simp
        with clt show "(case p of (k, a) \<Rightarrow> (k, ?h[?c := (?h ! ?c) @ [snd ic]] ! a)) =
                       ((\<lambda>(k', l). (k', if k' = k then l @ [snd ic] else l)) \<circ>
                        (\<lambda>(k, a). (k, ?h ! a))) p"
          by (auto simp: pa nth_list_update)
      qed
      then show ?thesis
        using populated later Some
        by (simp add: st' table_step_def read_table_def cur_key_def)
    qed
  qed
qed

lemma fold_load_cell_sim:
  "state_inv st \<Longrightarrow>
   state_inv (fold load_cell xs st) \<and>
   (read_table (fold load_cell xs st), cur_key (fold load_cell xs st)) =
     fold table_step xs (read_table st, cur_key st)"
proof (induction xs arbitrary: st)
  case Nil
  then show ?case by simp
next
  case (Cons x xs)
  have "state_inv (load_cell x st)" using Cons.prems by (rule load_cell_inv)
  from Cons.IH [OF this] show ?case
    by (simp add: load_cell_sim [OF Cons.prems, symmetric])
qed

lemma fold_load_row_sim:
  "state_inv st \<Longrightarrow>
   state_inv (fold load_row rows st) \<and>
   (read_table (fold load_row rows st), cur_key (fold load_row rows st)) =
     fold table_step (cells rows) (read_table st, cur_key st)"
proof (induction rows arbitrary: st)
  case Nil
  then show ?case by (simp add: cells_def)
next
  case (Cons r rows)
  have a: "state_inv (load_row r st)"
    and b: "(read_table (load_row r st), cur_key (load_row r st)) =
             fold table_step (enumerate 0 r) (read_table st, cur_key st)"
    using fold_load_cell_sim [OF Cons.prems, of "enumerate 0 r"] by (simp_all add: load_row_def)
  from Cons.IH [OF a] show ?case
    by (simp add: cells_def b)
qed

lemma load_sheet_table_fold: "load_sheet rows = fst (table_fold rows)"
  using fold_load_row_sim [OF state_inv_init, of rows]
  by (simp add: load_sheet_def table_fold_def read_table_init cur_key_init fst_def split: prod.splits)
   (metis fst_conv)


subsection \<open>What the fold does with a row\<close>

lemma skip_cell_iff: "skip_cell v = (v = PyNone \<or> v = PyStr [])"
  by (cases v) (simp_all add: skip_cell_def)

lemma cells_append: "cells (a @ b) = cells a @ cells b"
  by (simp add: cells_def)

lemma cells_Cons: "cells (r # rows) = enumerate 0 r @ cells rows"
  by (simp add: cells_def)

lemma cells_Nil: "cells [] = []"
  by (simp add: cells_def)

lemma map_of_dict_set:
  "map_of (dict_set d k v) k' = (if k' = k then Some v else map_of d k')"
  by (induction d) auto

lemma map_of_dict_app:
  "map_of (dict_app d k v) k' =
     (if k' = k then map_option (\<lambda>l. l @ [v]) (map_of d k) else map_of d k')"
  by (induction d) (auto simp: dict_app_def)

lemma keys_dict_app: "map fst (dict_app d k v) = map fst d"
  by (induction d) (auto simp: dict_app_def)

lemma keys_fold_dict_app: "map fst (fold (\<lambda>v d. dict_app d k v) vs d) = map fst d"
  by (induction vs arbitrary: d) (simp_all add: keys_dict_app)

lemma map_of_fold_dict_app:
  "map_of (fold (\<lambda>v d. dict_app d k v) vs d) k' =
     (if k' = k then map_option (\<lambda>l. l @ vs) (map_of d k) else map_of d k')"
proof (induction vs arbitrary: d)
  case Nil
  show ?case by (simp add: option.map_ident)
next
  case (Cons v vs)
  show ?case
    by (simp add: Cons.IH map_of_dict_app option.map_comp comp_def)
qed

lemma fold_later_None:
  "0 < n \<Longrightarrow> fold table_step (enumerate n xs) (t, None) = (t, None)"
  by (induction xs arbitrary: n) (simp_all add: table_step_def)

lemma fold_later_Some:
  "0 < n \<Longrightarrow> fold table_step (enumerate n xs) (t, Some k) =
     (fold (\<lambda>v d. dict_app d k v) (populated xs) t, Some k)"
  by (induction xs arbitrary: n t) (simp_all add: table_step_def populated_def)

lemma fold_row_command:
  "\<not> skip_cell c \<Longrightarrow> fold table_step (enumerate 0 (c # subs)) (t, cur) =
     (fold (\<lambda>v d. dict_app d c v) (populated subs) (dict_set t c []), Some c)"
proof -
  assume c: "\<not> skip_cell c"
  have "table_step (0, c) (t, cur) = (dict_set t c [], Some c)"
    using c by (simp add: table_step_def)
  then show ?thesis
    by (simp add: fold_later_Some)
qed

lemma fold_row_no_command:
  "row = [] \<or> skip_cell (hd row) \<Longrightarrow>
   fold table_step (enumerate 0 row) (t, cur) =
     (case cur of None \<Rightarrow> (t, None)
      | Some k \<Rightarrow> (fold (\<lambda>v d. dict_app d k v) (populated (tl row)) t, Some k))"
proof (cases row)
  case Nil
  then show ?thesis by (cases cur) (simp_all add: populated_def)
next
  case (Cons x xs)
  assume "row = [] \<or> skip_cell (hd row)"
  with Cons have "table_step (0, x) (t, cur) = (t, cur)"
    by (simp add: table_step_def)
  then show ?thesis
    by (cases cur) (simp_all add: Cons fold_later_None fold_later_Some)
qed

lemma fold_orphans:
  "\<forall>row \<in> set pre. row = [] \<or> skip_cell (hd row) \<Longrightarrow>
   fold table_step (cells pre) (t, None) = (t, None)"
proof (induction pre)
  case Nil
  show ?case by (simp add: cells_Nil)
next
  case (Cons r pre)
  then have "fold table_step (enumerate 0 r) (t, None) = (t, None)"
    by (simp add: fold_row_no_command)
  with Cons show ?case by (simp add: cells_Cons)
qed

lemma fold_row_keys:
  "set (map fst (fst (fold table_step (enumerate 0 row) (t, cur)))) =
     set (map fst t) \<union> set (command_cells [row])"
proof (cases "row = [] \<or> skip_cell (hd row)")
  case True
  then show ?thesis
    by (cases cur) (auto simp: fold_row_no_command keys_fold_dict_app command_cells_def populated_def)
next
  case False
  then obtain c subs where row: "row = c # subs" and c: "\<not> skip_cell c"
    by (cases row) auto
  have eq: "fold table_step (enumerate 0 row) (t, cur) =
              (fold (\<lambda>v d. dict_app d c v) (populated subs) (dict_set t c []), Some c)"
    unfolding row by (rule fold_row_command [OF c])
  have cc: "command_cells [row] = [c]"
    by (simp add: row command_cells_def populated_def c)
  show ?thesis
    unfolding eq cc by (auto simp: keys_fold_dict_app dict_set_keys)
qed

lemma fold_row_cur:
  "snd (fold table_step (enumerate 0 row) (t, cur)) =
     (if command_cells [row] = [] then cur else Some (last (command_cells [row])))"
proof (cases "row = [] \<or> skip_cell (hd row)")
  case True
  then show ?thesis
    by (cases cur) (auto simp: fold_row_no_command command_cells_def populated_def)
next
  case False
  then obtain c subs where row: "row = c # subs" and c: "\<not> skip_cell c"
    by (cases row) auto
  have eq: "fold table_step (enumerate 0 row) (t, cur) =
              (fold (\<lambda>v d. dict_app d c v) (populated subs) (dict_set t c []), Some c)"
    unfolding row by (rule fold_row_command [OF c])
  have cc: "command_cells [row] = [c]"
    by (simp add: row command_cells_def populated_def c)
  show ?thesis
    unfolding eq cc by simp
qed

lemma command_cells_Cons: "command_cells (r # rows) = command_cells [r] @ command_cells rows"
  by (simp add: command_cells_def populated_def)

lemma fold_cells_keys:
  "set (map fst (fst (fold table_step (cells rows) (t, cur)))) =
     set (map fst t) \<union> set (command_cells rows)"
proof (induction rows arbitrary: t cur)
  case Nil
  show ?case by (simp add: cells_Nil command_cells_def populated_def)
next
  case (Cons r rows)
  obtain t' cur' where step: "fold table_step (enumerate 0 r) (t, cur) = (t', cur')"
    by (cases "fold table_step (enumerate 0 r) (t, cur)")
  have "set (map fst t') = set (map fst t) \<union> set (command_cells [r])"
    using fold_row_keys [of r t cur] by (simp add: step)
  then show ?case
    using Cons.IH [of t' cur'] by (auto simp: cells_Cons step command_cells_Cons [of r rows])
qed

lemma fold_cells_cur:
  "snd (fold table_step (cells rows) (t, cur)) =
     (if command_cells rows = [] then cur else Some (last (command_cells rows)))"
proof (induction rows arbitrary: t cur)
  case Nil
  show ?case by (simp add: cells_Nil command_cells_def populated_def)
next
  case (Cons r rows)
  obtain t' cur' where step: "fold table_step (enumerate 0 r) (t, cur) = (t', cur')"
    by (cases "fold table_step (enumerate 0 r) (t, cur)")
  have "cur' = (if command_cells [r] = [] then cur else Some (last (command_cells [r])))"
    using fold_row_cur [of r t cur] by (simp add: step)
  then show ?case
    using Cons.IH [of t' cur'] by (simp add: cells_Cons step command_cells_Cons [of r rows])
qed

lemma table_fold_cur: "snd (table_fold rows) = last_command rows"
  by (simp add: table_fold_def fold_cells_cur last_command_def)

lemma table_fold_keys: "set (map fst (fst (table_fold rows))) = set (command_cells rows)"
  unfolding table_fold_def fold_cells_keys by simp

lemma table_step_distinct:
  "distinct (map fst (fst acc)) \<Longrightarrow> distinct (map fst (fst (table_step x acc)))"
  by (auto simp: table_step_def dict_set_distinct keys_dict_app split: option.splits)

lemma fold_table_step_distinct:
  "distinct (map fst (fst acc)) \<Longrightarrow> distinct (map fst (fst (fold table_step xs acc)))"
  by (induction xs arbitrary: acc) (simp_all add: table_step_distinct)

lemma fold_new_commands_keep:
  "\<forall>r \<in> set post. r \<noteq> [] \<and> \<not> skip_cell (hd r) \<and> hd r \<noteq> k \<Longrightarrow>
   map_of (fst (fold table_step (cells post) (t, cur))) k = map_of t k"
proof (induction post arbitrary: t cur)
  case Nil
  show ?case by (simp add: cells_Nil)
next
  case (Cons r post)
  then obtain c subs where row: "r = c # subs" and c: "\<not> skip_cell c" and ck: "c \<noteq> k"
    by (cases r) auto
  have keep: "map_of (fold (\<lambda>v d. dict_app d c v) (populated subs) (dict_set t c [])) k = map_of t k"
    using ck by (simp add: map_of_fold_dict_app map_of_dict_set)
  have eq: "fold table_step (enumerate 0 r) (t, cur) =
              (fold (\<lambda>v d. dict_app d c v) (populated subs) (dict_set t c []), Some c)"
    unfolding row by (rule fold_row_command [OF c])
  have "fold table_step (cells (r # post)) (t, cur) =
        fold table_step (cells post)
          (fold (\<lambda>v d. dict_app d c v) (populated subs) (dict_set t c []), Some c)"
    unfolding cells_Cons fold_append comp_def eq ..
  with Cons keep show ?case by simp
qed

lemma fold_continuation_rows:
  "\<forall>r \<in> set cont. r = [] \<or> skip_cell (hd r) \<Longrightarrow>
   fold table_step (cells cont) (t, Some k) =
     (fold (\<lambda>v d. dict_app d k v) (populated (concat (map tl cont))) t, Some k)"
proof (induction cont arbitrary: t)
  case Nil
  show ?case by (simp add: cells_Nil populated_def)
next
  case (Cons r cont)
  then have r: "r = [] \<or> skip_cell (hd r)" and rest: "\<forall>r \<in> set cont. r = [] \<or> skip_cell (hd r)"
    by simp_all
  have row: "fold table_step (enumerate 0 r) (t, Some k) =
             (fold (\<lambda>v d. dict_app d k v) (populated (tl r)) t, Some k)"
    using fold_row_no_command [OF r, of t "Some k"] by simp
  show ?case
    unfolding cells_Cons fold_append comp_def row Cons.IH [OF rest]
    by (simp add: populated_def)
qed

lemma table_fold_snoc:
  "table_fold (pre @ [r @ [v]]) = table_step (length r, v) (table_fold (pre @ [r]))"
  by (simp add: table_fold_def cells_append cells_Cons cells_Nil enumerate_append_eq)

lemma table_fold_empty_row: "table_fold (pre @ [[]]) = table_fold pre"
  by (simp add: table_fold_def cells_append cells_Cons cells_Nil)

subsection \<open>Claims about the keyword table\<close>

text \<open>
  C5 (as amended). For every sequence of rows of a sheet, the table that
  \<^verbatim>\<open>load_keywords\<close> builds with its aliased list objects is the table of the pure fold
  over the cells in reading order: a populated cell in column 0 starts a new command entry
  and becomes the current command, a populated cell in a later column (of that row or of a
  following row whose column 0 is empty) is appended to the current command's list, and
  empty or absent cells leave the fold state as it is.
\<close>

theorem table_construction_is_column_fold:
  "load_sheet rows = fst (fold table_step (cells rows) ([], None))"
  using load_sheet_table_fold [of rows] by (simp add: table_fold_def)

text \<open>
  C5 as worded takes the first populated cell of a row for the command. On the rows
  \<^verbatim>\<open>["CMD", "A"]\<close>, \<^verbatim>\<open>[None, "X"]\<close> the loader appends \<^verbatim>\<open>X\<close> to \<^verbatim>\<open>CMD\<close>, while
  the fold over first populated cells starts a command \<^verbatim>\<open>X\<close>.
\<close>

theorem first_populated_fold_differs:
  "load_sheet [[PyStr ''CMD'', PyStr ''A''], [PyNone, PyStr ''X'']] =
     [(PyStr ''CMD'', [PyStr ''A'', PyStr ''X''])] \<and>
   first_populated_fold [[PyStr ''CMD'', PyStr ''A''], [PyNone, PyStr ''X'']] =
     [(PyStr ''CMD'', [PyStr ''A'']), (PyStr ''X'', [])]"
  by (simp add: load_sheet_def load_row_def load_cell_def init_state_def read_table_def
                skip_cell_def first_populated_fold_def first_populated_step_def populated_def
                dict_app_def)

text \<open>
  C4 (as amended). Building the table never fails: rows that come before the first command
  cell of a sheet (rows that are empty or whose column 0 is empty) are dropped together with
  every sub-keyword cell they hold, and the table is the one built from the rows after them.
\<close>

theorem orphan_subkeywords_dropped:
  assumes "\<forall>row \<in> set pre. row = [] \<or> skip_cell (hd row)"
  shows "load_sheet (pre @ rows) = load_sheet rows"
  by (simp add: load_sheet_table_fold table_fold_def cells_append fold_orphans [OF assms])

theorem orphan_subkeywords_dropped_witness:
  "load_sheet ([[PyNone, PyStr ''X''], [], [PyStr [], PyInt 7]] @ [[PyStr ''CMD'', PyStr ''A'']]) =
   load_sheet [[PyStr ''CMD'', PyStr ''A'']]"
  using orphan_subkeywords_dropped [of "[[PyNone, PyStr ''X''], [], [PyStr [], PyInt 7]]"
          "[[PyStr ''CMD'', PyStr ''A'']]"]
  by (simp add: skip_cell_def)

text \<open>
  C4 as worded asks for a failure and no table. On a sheet whose only row is
  \<^verbatim>\<open>[None, "X"]\<close> a sub-keyword cell comes before any command cell, and
  \<^verbatim>\<open>load_keywords\<close> returns the table with an empty entry for the module.
\<close>

theorem no_malformed_table_error:
  "orphan_first (cells [[PyNone, PyStr ''X'']]) \<and>
   load_keywords [(''M'', [[PyNone, PyStr ''X'']])] = [(''M'', [])]"
  by (simp add: cells_def load_keywords_def load_sheet_def load_row_def load_cell_def
                init_state_def read_table_def skip_cell_def)

text \<open>
  C9. The command names of a module's entry are pairwise distinct keys. When a row names a
  command \<open>k\<close>, is followed by rows \<open>cont\<close> whose column 0 is empty, and every row after
  them starts another command, the entry of \<open>k\<close> holds the populated later cells of that
  row and of \<open>cont\<close> only, whatever the rows before bound to \<open>k\<close>: the later occurrence
  rebinds \<open>k\<close> to a fresh list and the earlier sub-keywords are gone.
\<close>

theorem command_rebinding:
  "distinct (map fst (load_sheet rows)) \<and>
   (\<not> skip_cell k \<and> (\<forall>r \<in> set cont. r = [] \<or> skip_cell (hd r)) \<and>
    (\<forall>r \<in> set post. r \<noteq> [] \<and> \<not> skip_cell (hd r) \<and> hd r \<noteq> k) \<longrightarrow>
      map_of (load_sheet (pre @ (k # subs) # cont @ post)) k =
        Some (populated (subs @ concat (map tl cont))))"
proof
  show "distinct (map fst (load_sheet rows))"
    by (simp add: load_sheet_table_fold table_fold_def fold_table_step_distinct)
next
  show "\<not> skip_cell k \<and> (\<forall>r \<in> set cont. r = [] \<or> skip_cell (hd r)) \<and>
    (\<forall>r \<in> set post. r \<noteq> [] \<and> \<not> skip_cell (hd r) \<and> hd r \<noteq> k) \<longrightarrow>
      map_of (load_sheet (pre @ (k # subs) # cont @ post)) k =
        Some (populated (subs @ concat (map tl cont)))"
  proof
    assume a: "\<not> skip_cell k \<and> (\<forall>r \<in> set cont. r = [] \<or> skip_cell (hd r)) \<and>
      (\<forall>r \<in> set post. r \<noteq> [] \<and> \<not> skip_cell (hd r) \<and> hd r \<noteq> k)"
    then have nk: "\<not> skip_cell k" and cont: "\<forall>r \<in> set cont. r = [] \<or> skip_cell (hd r)"
      and post: "\<forall>r \<in> set post. r \<noteq> [] \<and> \<not> skip_cell (hd r) \<and> hd r \<noteq> k"
      by simp_all
    obtain t cur where pre: "fold table_step (cells pre) ([], None) = (t, cur)"
      by (cases "fold table_step (cells pre) ([], None)")
    let ?t = "fold (\<lambda>v d. dict_app d k v) (populated (concat (map tl cont)))
                (fold (\<lambda>v d. dict_app d k v) (populated subs) (dict_set t k []))"
    have entry: "map_of ?t k = Some (populated (subs @ concat (map tl cont)))"
      by (simp add: map_of_fold_dict_app map_of_dict_set populated_def)
    have "fold table_step (cells (pre @ (k # subs) # cont @ post)) ([], None) =
          fold table_step (cells post) (?t, Some k)"
      unfolding cells_append cells_Cons fold_append comp_def pre fold_row_command [OF nk]
        fold_continuation_rows [OF cont] ..
    with entry post show "map_of (load_sheet (pre @ (k # subs) # cont @ post)) k =
        Some (populated (subs @ concat (map tl cont)))"
      by (simp add: load_sheet_table_fold table_fold_def fold_new_commands_keep)
  qed
qed

theorem command_rebinding_witness:
  "distinct (map fst (load_sheet [[PyStr ''A'', PyStr ''x'']])) \<and>
   map_of (load_sheet ([[PyStr ''A'', PyStr ''x'', PyStr ''y''], [PyNone, PyStr ''z'']] @
             (PyStr ''A'' # [PyNone, PyStr ''w'']) # [[PyNone, PyInt 2]] @ [[PyStr ''B'', PyStr ''x'']]))
       (PyStr ''A'') =
     Some [PyStr ''w'', PyInt 2]"
  using command_rebinding [of "[[PyStr ''A'', PyStr ''x'']]" "PyStr ''A''" "[[PyNone, PyInt 2]]"
          "[[PyStr ''B'', PyStr ''x'']]"
          "[[PyStr ''A'', PyStr ''x'', PyStr ''y''], [PyNone, PyStr ''z'']]" "[PyNone, PyStr ''w'']"]
  by (simp add: skip_cell_def populated_def)

text \<open>
  C10 (as amended). Adding one more cell \<open>v\<close> at the end of the last row: a cell that
  is \<^verbatim>\<open>None\<close> or the empty string changes nothing; any other value, a number as well as
  a string, is taken as it is: in column 0 it is bound as a command name to an empty list;
  in a later column it is appended to the list of the last command seen in the sheet, which
  is a key of the table; when the sheet has no command yet the table stays as it is.
\<close>

theorem populated_cells_accepted_verbatim:
  "(v = PyNone \<or> v = PyStr [] \<longrightarrow> load_sheet (pre @ [r @ [v]]) = load_sheet (pre @ [r])) \<and>
   (v \<noteq> PyNone \<and> v \<noteq> PyStr [] \<and> r = [] \<longrightarrow>
      load_sheet (pre @ [r @ [v]]) = dict_set (load_sheet pre) v []) \<and>
   (v \<noteq> PyNone \<and> v \<noteq> PyStr [] \<and> r \<noteq> [] \<and> last_command (pre @ [r]) = Some k \<longrightarrow>
      load_sheet (pre @ [r @ [v]]) = dict_app (load_sheet (pre @ [r])) k v \<and>
      k \<in> fst ` set (load_sheet (pre @ [r]))) \<and>
   (v \<noteq> PyNone \<and> v \<noteq> PyStr [] \<and> r \<noteq> [] \<and> last_command (pre @ [r]) = None \<longrightarrow>
      load_sheet (pre @ [r @ [v]]) = load_sheet (pre @ [r]))"
proof -
  obtain t cur where tf: "table_fold (pre @ [r]) = (t, cur)"
    by (cases "table_fold (pre @ [r])")
  have cur: "cur = last_command (pre @ [r])"
    using table_fold_cur [of "pre @ [r]"] by (simp add: tf)
  have keys: "set (map fst t) = set (command_cells (pre @ [r]))"
    using table_fold_keys [of "pre @ [r]"] by (simp add: tf)
  have k: "k \<in> fst ` set t" if "last_command (pre @ [r]) = Some k"
  proof -
    from that have "k \<in> set (command_cells (pre @ [r]))"
      by (auto simp: last_command_def split: if_splits)
    with keys show ?thesis by simp
  qed
  have snoc: "load_sheet (pre @ [r @ [v]]) = fst (table_step (length r, v) (t, cur))"
    by (simp add: load_sheet_table_fold table_fold_snoc tf)
  have old: "load_sheet (pre @ [r]) = t"
    by (simp add: load_sheet_table_fold tf)
  have c1: "v = PyNone \<or> v = PyStr [] \<longrightarrow> load_sheet (pre @ [r @ [v]]) = load_sheet (pre @ [r])"
    by (auto simp: snoc old table_step_def skip_cell_iff)
  have c2: "v \<noteq> PyNone \<and> v \<noteq> PyStr [] \<and> r = [] \<longrightarrow>
      load_sheet (pre @ [r @ [v]]) = dict_set (load_sheet pre) v []"
  proof
    assume a: "v \<noteq> PyNone \<and> v \<noteq> PyStr [] \<and> r = []"
    then have "t = load_sheet pre"
      using tf table_fold_empty_row [of pre] by (simp add: load_sheet_table_fold)
    with a show "load_sheet (pre @ [r @ [v]]) = dict_set (load_sheet pre) v []"
      unfolding snoc by (simp add: table_step_def skip_cell_iff)
  qed
  have c3: "v \<noteq> PyNone \<and> v \<noteq> PyStr [] \<and> r \<noteq> [] \<and> last_command (pre @ [r]) = Some k \<longrightarrow>
      load_sheet (pre @ [r @ [v]]) = dict_app (load_sheet (pre @ [r])) k v \<and>
      k \<in> fst ` set (load_sheet (pre @ [r]))"
    using cur k unfolding snoc old by (auto simp: table_step_def skip_cell_iff)
  have c4: "v \<noteq> PyNone \<and> v \<noteq> PyStr [] \<and> r \<noteq> [] \<and> last_command (pre @ [r]) = None \<longrightarrow>
      load_sheet (pre @ [r @ [v]]) = load_sheet (pre @ [r])"
    using cur unfolding snoc old by (auto simp: table_step_def skip_cell_iff)
  from c1 c2 c3 c4 show ?thesis by blast
qed

theorem populated_cells_accepted_verbatim_witness:
  "load_sheet ([[PyStr ''A'']] @ [[PyInt 0] @ [PyNone]]) = load_sheet ([[PyStr ''A'']] @ [[PyInt 0]]) \<and>
   load_sheet ([[PyStr ''A'']] @ [[] @ [PyInt 0]]) = dict_set (load_sheet [[PyStr ''A'']]) (PyInt 0) [] \<and>
   load_sheet ([[PyStr ''A'']] @ [[PyNone] @ [PyInt 5]]) =
     dict_app (load_sheet ([[PyStr ''A'']] @ [[PyNone]])) (PyStr ''A'') (PyInt 5) \<and>
   load_sheet ([] @ [[PyNone] @ [PyInt 5]]) = load_sheet ([] @ [[PyNone]])"
  using populated_cells_accepted_verbatim [of PyNone "[[PyStr ''A'']]" "[PyInt 0]" undefined]
        populated_cells_accepted_verbatim [of "PyInt 0" "[[PyStr ''A'']]" "[]" undefined]
        populated_cells_accepted_verbatim [of "PyInt 5" "[[PyStr ''A'']]" "[PyNone]" "PyStr ''A''"]
        populated_cells_accepted_verbatim [of "PyInt 5" "[]" "[PyNone]" undefined]
  by (simp add: last_command_def command_cells_def populated_def skip_cell_def)

text \<open>
  C10 as worded has every cell other than \<^verbatim>\<open>None\<close> and the empty string accepted into
  the table. The number 5 in column 1 of a sheet without a command is not.
\<close>

theorem orphan_cell_not_accepted:
  "PyInt 5 \<noteq> PyNone \<and> PyInt 5 \<noteq> PyStr [] \<and> load_sheet [[PyNone, PyInt 5]] = []"
  by (simp add: load_sheet_def load_row_def load_cell_def init_state_def read_table_def skip_cell_def)

section \<open>The shape of an optimized pattern\<close>

lemma group_keywords_fold:
  "[] \<notin> set ws \<Longrightarrow>
   group_keywords str_upper ws g = Inr (fold (\<lambda>w g. group_append g (first_upper str_upper w) w) ws g)"
proof (induction ws arbitrary: g)
  case Nil
  show ?case by simp
next
  case (Cons w ws)
  then obtain c cs where w: "w = c # cs" by (cases w) auto
  from Cons show ?case by (simp add: w first_upper_def)
qed

lemma group_keywords_error: "[] \<in> set ws \<Longrightarrow> group_keywords str_upper ws g = Inl IndexError"
proof (induction ws arbitrary: g)
  case Nil
  then show ?case by simp
next
  case (Cons w ws)
  then show ?case by (cases w) auto
qed

lemma group_append_keys:
  "map fst (group_append g k w) = (if k \<in> set (map fst g) then map fst g else map fst g @ [k])"
  by (induction g) force+

lemma group_append_lookup:
  "group_lookup (group_append g k w) c =
     (if c = k then group_lookup g k @ [w] else group_lookup g c)"
  by (induction g) (auto simp: group_lookup_def)

lemma group_append_keyset: "fst ` set (group_append g k w) = insert k (fst ` set g)"
proof -
  have "set (map fst (group_append g k w)) = insert k (set (map fst g))"
    unfolding group_append_keys by auto
  then show ?thesis by simp
qed

lemma group_lookup_Nil: "group_lookup [] c = []"
  by (simp add: group_lookup_def)

lemma fold_group_keys_set:
  "fst ` set (fold (\<lambda>w g. group_append g (f w) w) ws g) = fst ` set g \<union> f ` set ws"
  by (induction ws arbitrary: g) (simp_all add: group_append_keyset)

lemma fold_group_keys_distinct:
  "distinct (map fst g) \<Longrightarrow> distinct (map fst (fold (\<lambda>w g. group_append g (f w) w) ws g))"
  by (induction ws arbitrary: g) (auto simp: group_append_keys)

lemma fold_group_lookup:
  "group_lookup (fold (\<lambda>w g. group_append g (f w) w) ws g) c =
     group_lookup g c @ filter (\<lambda>w. f w = c) ws"
  by (induction ws arbitrary: g) (auto simp: group_append_lookup)

lemma group_lookup_sorted:
  "group_lookup (map (\<lambda>(character, ws). (character, sort_keywords ws)) g) c =
     sort_keywords (group_lookup g c)"
  by (induction g) (auto simp: group_lookup_def sort_keywords_def)

lemma keys_sorted_groups:
  "map fst (map (\<lambda>(character, ws). (character, sort_keywords ws)) g) = map fst g"
  by (induction g) auto

lemma sort_distinct_eq:
  "distinct xs \<Longrightarrow> distinct ys \<Longrightarrow> set xs = set ys \<Longrightarrow> sort xs = sort (ys :: 'a :: linorder list)"
  by (metis distinct_sort set_sort sorted_distinct_set_unique sorted_sort)

lemma optimize_pattern_eq:
  "optimize_pattern str_upper keyword_list =
     (if [] \<in> set keyword_list then Inl IndexError else Inr (optimize_spec str_upper keyword_list))"
proof (cases "[] \<in> set keyword_list")
  case True
  then have "keyword_list \<noteq> []" by auto
  with True show ?thesis by (simp add: optimize_pattern_def group_keywords_error)
next
  case False
  define G where "G = fold (\<lambda>w g. group_append g (first_upper str_upper w) w) keyword_list []"
  define S where "S = map (\<lambda>(character, ws). (character, sort_keywords ws)) G"
  have gk: "group_keywords str_upper keyword_list [] = Inr G"
    using False by (simp add: G_def group_keywords_fold)
  have keysS: "map fst S = map fst G" unfolding S_def by (rule keys_sorted_groups)
  have dist: "distinct (map fst G)" by (simp add: G_def fold_group_keys_distinct)
  have kset: "fst ` set G = first_upper str_upper ` set keyword_list"
    using fold_group_keys_set [of "first_upper str_upper" keyword_list "[]"] unfolding G_def by simp
  have look: "group_lookup S c = keyword_group str_upper keyword_list c" for c
    by (simp add: S_def group_lookup_sorted G_def fold_group_lookup keyword_group_def
                  group_lookup_Nil)
  have keys: "sort (map fst S) = group_keys str_upper keyword_list"
    unfolding keysS group_keys_def
    by (rule sort_distinct_eq) (simp_all add: dist kset)
  have len: "length S = length (group_keys str_upper keyword_list)"
    using arg_cong [OF keys, of length] by simp
  have part: "pattern_part S c = group_alternative str_upper keyword_list c" for c
  proof -
    have "length (keyword_group str_upper keyword_list c) = 1 \<Longrightarrow>
          keyword_group str_upper keyword_list c ! 0 = hd (keyword_group str_upper keyword_list c)"
      by (cases "keyword_group str_upper keyword_list c") auto
    moreover have "drop (Suc 0) = (tl :: string \<Rightarrow> string)"
      by (rule ext) (simp add: drop_Suc)
    ultimately show ?thesis
      by (simp add: pattern_part_def group_alternative_def look Let_def)
  qed
  have single: "snd (S ! 0) = sort_keywords keyword_list" if "length S = 1"
  proof -
    from that obtain c ws where S1: "S = [(c, ws)]"
      by (cases S) (auto simp: length_Suc_conv)
    then have "map fst G = [c]" using keysS by simp
    then have "set (map fst G) = {c}" by simp
    with kset have "first_upper str_upper ` set keyword_list = {c}" by simp
    then have all: "filter (\<lambda>w. first_upper str_upper w = c) keyword_list = keyword_list"
      by (auto simp: filter_id_conv)
    have "ws = group_lookup S c" by (simp add: S1 group_lookup_def)
    also have "\<dots> = sort_keywords keyword_list" by (simp add: look keyword_group_def all)
    finally show ?thesis by (simp add: S1)
  qed
  have ne: "keyword_list \<noteq> [] \<Longrightarrow> optimize_pattern str_upper keyword_list = Inr (optimize_spec str_upper keyword_list)"
    using single
    by (simp add: optimize_pattern_def gk Let_def S_def [symmetric] keys part len optimize_spec_def
             cong: map_cong)
  show ?thesis
  proof (cases "keyword_list = []")
    case True
    then show ?thesis by (simp add: optimize_pattern_def optimize_spec_def)
  next
    case nonempty: False
    with ne False show ?thesis by simp
  qed
qed

section \<open>Generation on a table of strings\<close>

lemma cell_strings_keywords:
  "list_all is_keyword xs \<Longrightarrow> cell_strings xs = Inr (map format_cell xs)"
  by (induction xs) (auto simp: is_keyword_def format_cell_def split: cell.splits)

lemma format_keyword_nonempty: "is_keyword x \<Longrightarrow> format_cell x \<noteq> []"
  by (auto simp: is_keyword_def format_cell_def split: cell.splits)

lemma set_sort_keywords: "set (sort_keywords ws) = set ws"
  by (simp add: sort_keywords_def)

lemma py_sorted_keywords:
  "list_all is_keyword xs \<Longrightarrow> py_sorted xs = Inr (sort_keywords (map format_cell xs))"
  by (simp add: py_sorted_def cell_strings_keywords)

lemma optimize_sorted_keywords:
  assumes "list_all is_keyword xs"
  shows "optimize_pattern str_upper (sort_keywords (map format_cell xs)) = Inr (keyword_pattern str_upper xs)"
proof -
  have "[] \<notin> set (sort_keywords (map format_cell xs))"
  proof
    assume "[] \<in> set (sort_keywords (map format_cell xs))"
    then obtain x where "x \<in> set xs" and "format_cell x = []"
      by (auto simp: set_sort_keywords)
    with assms show False
      using format_keyword_nonempty [of x] by (simp add: list_all_iff)
  qed
  then show ?thesis by (simp add: optimize_pattern_eq keyword_pattern_def)
qed

lemma command_rule_keywords:
  assumes "list_all is_keyword (snd item)"
  shows "command_rule str_upper cp item = Inr (scoped_rule str_upper cp item)"
  using assms
  by (simp add: command_rule_def scoped_rule_def Let_def py_sorted_keywords optimize_sorted_keywords)

lemma command_rules_keywords:
  "string_commands items \<Longrightarrow>
   command_rules str_upper cp items acc = Inr (acc @ concat (map (scoped_rule str_upper cp) items))"
proof (induction items arbitrary: acc)
  case Nil
  show ?case by simp
next
  case (Cons item items)
  then have "list_all is_keyword (snd item)" and "string_commands items"
    by (auto simp: string_commands_def)
  with Cons.IH show ?case by (simp add: command_rule_keywords)
qed

lemma module_repository_keywords:
  assumes "string_commands module_commands"
  shows "module_repository str_upper module_name module_commands =
         Inr (module_rules str_upper (module_name, module_commands))"
proof -
  have keys: "list_all is_keyword (map fst module_commands)"
    using assms by (auto simp: string_commands_def list_all_iff)
  show ?thesis
    by (simp only: module_repository_def module_rules_def py_sorted_keywords [OF keys]
          optimize_sorted_keywords [OF keys] command_rules_keywords [OF assms]
          sum.case fst_conv snd_conv append_assoc)
qed

lemma module_patterns_loop_scoped:
  "module_patterns_loop str_upper str_lower keywords_data acc = module_patterns_loop str_upper str_lower (scoped_modules keywords_data) acc"
  by (induction str_upper str_lower keywords_data acc rule: module_patterns_loop.induct)
     (auto simp: scoped_modules_def split: sum.splits)

lemma module_patterns_loop_keywords:
  "string_table keywords_data \<Longrightarrow>
   module_patterns_loop str_upper str_lower keywords_data acc =
     Inr (fst acc @ map (module_region str_lower) (scoped_modules keywords_data),
          snd acc @ map (module_rules str_upper) (scoped_modules keywords_data))"
proof (induction str_upper str_lower keywords_data acc rule: module_patterns_loop.induct)
  case (1 str_upper str_lower acc)
  show ?case by (simp add: scoped_modules_def)
next
  case (2 str_upper str_lower mn mc rest acc)
  show ?case
  proof (cases "mn = ''BASIC''")
    case True
    with 2 show ?thesis by (simp add: scoped_modules_def string_table_def)
  next
    case False
    with "2.prems" have sc: "string_commands mc" and st: "string_table rest"
      by (simp_all add: string_table_def)
    note repo = module_repository_keywords [OF sc, of str_upper mn]
    from "2.IH"(2) [OF False repo st] False show ?thesis
      by (simp add: repo scoped_modules_def module_region_def)
  qed
qed

lemma generate_module_patterns_keywords:
  "string_table keywords_data \<Longrightarrow>
   generate_module_patterns str_upper str_lower keywords_data =
     Inr (map (module_region str_lower) (scoped_modules keywords_data),
          map (module_rules str_upper) (scoped_modules keywords_data))"
  by (simp add: generate_module_patterns_def module_patterns_loop_keywords)

lemma cell_strings_Inr:
  "cell_strings xs = Inr ss \<Longrightarrow> ss = map format_cell xs \<and> (\<forall>x \<in> set xs. \<exists>s. x = PyStr s)"
  by (induction xs arbitrary: ss) (auto simp: format_cell_def split: cell.splits sum.splits)

lemma keywords_error:
  assumes "\<not> list_all is_keyword xs"
  shows "\<exists>e. (case py_sorted xs of
                Inl e \<Rightarrow> Inl e
              | Inr ws \<Rightarrow> (case optimize_pattern str_upper ws of
                            Inl e \<Rightarrow> Inl e
                          | Inr p \<Rightarrow> f ws p)) = Inl e"
proof (cases "cell_strings xs")
  case (Inl e)
  then show ?thesis by (simp add: py_sorted_def)
next
  case (Inr ss)
  from assms obtain x where x: "x \<in> set xs" "\<not> is_keyword x"
    by (auto simp: list_all_iff)
  from cell_strings_Inr [OF Inr] x(1) obtain s where ss: "ss = map format_cell xs" and s: "x = PyStr s"
    by blast
  with x(2) have "format_cell x = []" by (simp add: is_keyword_def format_cell_def)
  with x(1) have "[] \<in> set (sort_keywords ss)"
    unfolding set_sort_keywords ss by force
  then have "optimize_pattern str_upper (sort_keywords ss) = Inl IndexError"
    by (simp add: optimize_pattern_eq)
  then show ?thesis by (simp add: py_sorted_def Inr)
qed

lemma command_rule_error:
  assumes "\<not> list_all is_keyword (snd item)"
  shows "\<exists>e. command_rule str_upper cp item = Inl e"
proof -
  from assms have "snd item \<noteq> []" by auto
  with keywords_error [OF assms, where str_upper = str_upper
         and f = "\<lambda>ws sp. Inr (region_rule (format_cell (fst item)) cp sp)"]
  show ?thesis by (simp add: command_rule_def Let_def)
qed

lemma command_rules_error:
  "\<exists>item \<in> set items. \<not> list_all is_keyword (snd item) \<Longrightarrow>
   \<exists>e. command_rules str_upper cp items acc = Inl e"
proof (induction items arbitrary: acc)
  case Nil
  then show ?case by simp
next
  case (Cons item items)
  show ?case
  proof (cases "command_rule str_upper cp item")
    case (Inl e)
    then show ?thesis by simp
  next
    case (Inr rule)
    with command_rule_error [of item str_upper cp] have "list_all is_keyword (snd item)" by auto
    with Cons.prems have "\<exists>item \<in> set items. \<not> list_all is_keyword (snd item)" by auto
    from Cons.IH [OF this] Inr show ?thesis by simp
  qed
qed

lemma module_repository_error:
  assumes "\<not> string_commands module_commands"
  shows "\<exists>e. module_repository str_upper module_name module_commands = Inl e"
proof (cases "list_all is_keyword (map fst module_commands)")
  case False
  from keywords_error [OF False, where str_upper = str_upper
         and f = "\<lambda>ws cp. case command_rules str_upper cp module_commands (repository_entry_open module_name) of
                    Inl e \<Rightarrow> Inl e
                  | Inr repository_entry \<Rightarrow> Inr (repository_entry @ repository_entry_close)"]
  show ?thesis by (simp add: module_repository_def)
next
  case True
  with assms have bad: "\<exists>item \<in> set module_commands. \<not> list_all is_keyword (snd item)"
    by (auto simp: string_commands_def list_all_iff)
  have "\<exists>e. command_rules str_upper cp module_commands (repository_entry_open module_name) = Inl e"
    for cp
    by (rule command_rules_error [OF bad])
  then have "command_rules str_upper cp module_commands (repository_entry_open module_name) \<noteq>
             Inr repository_entry" for cp repository_entry
    by (metis sum.distinct(1))
  then show ?thesis
    by (simp add: module_repository_def split: sum.splits)
qed

lemma module_patterns_loop_error:
  "\<not> string_table keywords_data \<Longrightarrow>
   \<exists>e. module_patterns_loop str_upper str_lower keywords_data acc = Inl e"
proof (induction str_upper str_lower keywords_data acc rule: module_patterns_loop.induct)
  case (1 str_upper str_lower acc)
  then show ?case by (simp add: string_table_def)
next
  case (2 str_upper str_lower mn mc rest acc)
  show ?case
  proof (cases "mn = ''BASIC''")
    case True
    with 2 show ?thesis by (simp add: string_table_def)
  next
    case False
    show ?thesis
    proof (cases "module_repository str_upper mn mc")
      case (Inl e)
      with False show ?thesis by simp
    next
      case (Inr repository_entry)
      with module_repository_error [of mc str_upper mn] have "string_commands mc" by auto
      with "2.prems" False have "\<not> string_table rest" by (simp add: string_table_def)
      from "2.IH"(2) [OF False Inr this] False Inr show ?thesis by simp
    qed
  qed
qed

lemma generate_module_patterns_error:
  "\<not> string_table keywords_data \<Longrightarrow>
   \<exists>e. generate_module_patterns str_upper str_lower keywords_data = Inl e"
  by (simp add: generate_module_patterns_def module_patterns_loop_error)

lemma module_pattern_begin:
  "sublist (''begin: '' @ apostrophe @ module_begin module_name @ apostrophe @ newline)
           (module_begin_end_pattern module_name l)"
  unfolding sublist_def
  by (rule exI [of _ "newline @ ''  {'' @ newline @ ''  ''"],
      rule exI [of _ "''  beginCaptures:'' @ newline @ ''    1: name: 'support.class.'' @ l @ ''.sofistik'' @ apostrophe @ newline @ ''    2: name: 'support.class.'' @ l @ ''.sofistik'' @ apostrophe @ newline @ ''    3:'' @ newline @ ''      name: 'comment.line.'' @ l @ ''.sofistik'' @ apostrophe @ newline @ ''      patterns: [{ include: 'text.todo' }]'' @ newline @ ''  '' @ ''end: '(?i)(?=^ *['' @ backslash @ backslash @ ''$'' @ backslash @ backslash @ ''+-]?PROG'' @ backslash @ backslash @ ''b)'' @ apostrophe @ newline @ ''  '' @ ''name: 'module.'' @ l @ ''.sofistik'' @ apostrophe @ newline @ ''  patterns: ['' @ newline @ ''    '' @ ''{'include': '#'' @ module_name @ apostrophe @ ''}'' @ newline @ ''    ]'' @ newline @ ''  }''"])
     (simp add: module_begin_end_pattern_def module_begin_def apostrophe_def)

lemma module_pattern_end:
  "sublist (''end: '' @ apostrophe @ module_end @ apostrophe @ newline)
           (module_begin_end_pattern module_name l)"
  unfolding sublist_def
  by (rule exI [of _ "newline @ ''  {'' @ newline @ ''  '' @ ''begin: '(?i)^ *(['' @ backslash @ backslash @ ''$'' @ backslash @ backslash @ ''+-]?PROG)( +'' @ module_name @ '')( .*)?$'' @ apostrophe @ newline @ ''  beginCaptures:'' @ newline @ ''    1: name: 'support.class.'' @ l @ ''.sofistik'' @ apostrophe @ newline @ ''    2: name: 'support.class.'' @ l @ ''.sofistik'' @ apostrophe @ newline @ ''    3:'' @ newline @ ''      name: 'comment.line.'' @ l @ ''.sofistik'' @ apostrophe @ newline @ ''      patterns: [{ include: 'text.todo' }]'' @ newline @ ''  ''"],
      rule exI [of _ "''  '' @ ''name: 'module.'' @ l @ ''.sofistik'' @ apostrophe @ newline @ ''  patterns: ['' @ newline @ ''    '' @ ''{'include': '#'' @ module_name @ apostrophe @ ''}'' @ newline @ ''    ]'' @ newline @ ''  }''"])
     (simp add: module_begin_end_pattern_def module_end_def apostrophe_def)

lemma module_pattern_name:
  "sublist (''name: 'module.'' @ l @ ''.sofistik'' @ apostrophe @ newline)
           (module_begin_end_pattern module_name l)"
  unfolding sublist_def
  by (rule exI [of _ "newline @ ''  {'' @ newline @ ''  '' @ ''begin: '(?i)^ *(['' @ backslash @ backslash @ ''$'' @ backslash @ backslash @ ''+-]?PROG)( +'' @ module_name @ '')( .*)?$'' @ apostrophe @ newline @ ''  beginCaptures:'' @ newline @ ''    1: name: 'support.class.'' @ l @ ''.sofistik'' @ apostrophe @ newline @ ''    2: name: 'support.class.'' @ l @ ''.sofistik'' @ apostrophe @ newline @ ''    3:'' @ newline @ ''      name: 'comment.line.'' @ l @ ''.sofistik'' @ apostrophe @ newline @ ''      patterns: [{ include: 'text.todo' }]'' @ newline @ ''  '' @ ''end: '(?i)(?=^ *['' @ backslash @ backslash @ ''$'' @ backslash @ backslash @ ''+-]?PROG'' @ backslash @ backslash @ ''b)'' @ apostrophe @ newline @ ''  ''"],
      rule exI [of _ "''  patterns: ['' @ newline @ ''    '' @ ''{'include': '#'' @ module_name @ apostrophe @ ''}'' @ newline @ ''    ]'' @ newline @ ''  }''"])
     (simp add: module_begin_end_pattern_def apostrophe_def)

lemma module_pattern_include:
  "sublist (''{'include': '#'' @ module_name @ apostrophe @ ''}'')
           (module_begin_end_pattern module_name l)"
  unfolding sublist_def
  by (rule exI [of _ "newline @ ''  {'' @ newline @ ''  '' @ ''begin: '(?i)^ *(['' @ backslash @ backslash @ ''$'' @ backslash @ backslash @ ''+-]?PROG)( +'' @ module_name @ '')( .*)?$'' @ apostrophe @ newline @ ''  beginCaptures:'' @ newline @ ''    1: name: 'support.class.'' @ l @ ''.sofistik'' @ apostrophe @ newline @ ''    2: name: 'support.class.'' @ l @ ''.sofistik'' @ apostrophe @ newline @ ''    3:'' @ newline @ ''      name: 'comment.line.'' @ l @ ''.sofistik'' @ apostrophe @ newline @ ''      patterns: [{ include: 'text.todo' }]'' @ newline @ ''  '' @ ''end: '(?i)(?=^ *['' @ backslash @ backslash @ ''$'' @ backslash @ backslash @ ''+-]?PROG'' @ backslash @ backslash @ ''b)'' @ apostrophe @ newline @ ''  '' @ ''name: 'module.'' @ l @ ''.sofistik'' @ apostrophe @ newline @ ''  patterns: ['' @ newline @ ''    ''"],
      rule exI [of _ "newline @ ''    ]'' @ newline @ ''  }''"])
     (simp add: module_begin_end_pattern_def apostrophe_def)








section \<open>What an optimized pattern matches\<close>

subsection \<open>Parsing the emitted patterns\<close>

lemma meta_delims:
  "c \<notin> set meta_chars \<Longrightarrow> c \<noteq> CHR ''|'' \<and> c \<noteq> CHR ''('' \<and> c \<noteq> CHR '')''"
  by (auto simp: meta_chars_def)

lemma parse_word:
  "no_meta w \<Longrightarrow>
   parse_re ((alts, cur) # st) (w @ rest) = parse_re ((alts, cur @ map Lit w) # st) rest"
proof (induction w arbitrary: cur)
  case Nil
  show ?case by simp
next
  case (Cons c w)
  then have c: "c \<notin> set meta_chars" and w: "no_meta w" by (simp_all add: no_meta_def)
  from meta_delims [OF c] c Cons.IH [OF w, of "cur @ [Lit c]"] show ?case by simp
qed

lemma parse_join:
  assumes "\<And>x alts st rest. x \<in> set xs \<Longrightarrow>
             parse_re ((alts, []) # st) (txt x @ rest) = parse_re ((alts, its x) # st) rest"
    and "xs \<noteq> []"
  shows "parse_re ((alts, []) # st) (join ''|'' (map txt xs) @ rest) =
         parse_re ((alts @ map (\<lambda>x. Seq (its x)) (butlast xs), its (last xs)) # st) rest"
  using assms
proof (induction xs arbitrary: alts)
  case Nil
  then show ?case by simp
next
  case (Cons x xs)
  show ?case
  proof (cases xs)
    case Nil
    with Cons.prems(1) [of x alts st rest] show ?thesis by simp
  next
    case (Cons y ys)
    have step: "parse_re ((alts, []) # st) (txt x @ CHR ''|'' # join ''|'' (map txt xs) @ rest) =
                parse_re ((alts @ [Seq (its x)], []) # st) (join ''|'' (map txt xs) @ rest)"
      using Cons.prems(1) [of x alts st "CHR ''|'' # join ''|'' (map txt xs) @ rest"] by simp
    have "parse_re ((alts @ [Seq (its x)], []) # st) (join ''|'' (map txt xs) @ rest) =
          parse_re (((alts @ [Seq (its x)]) @ map (\<lambda>x. Seq (its x)) (butlast xs), its (last xs)) # st) rest"
      using Cons.prems(1) Cons by (intro Cons.IH) auto
    with step show ?thesis by (simp add: Cons)
  qed
qed

lemma parse_pattern_join:
  assumes "\<And>x alts st rest. x \<in> set xs \<Longrightarrow>
             parse_re ((alts, []) # st) (txt x @ rest) = parse_re ((alts, its x) # st) rest"
    and "xs \<noteq> []"
  shows "parse_pattern (join ''|'' (map txt xs)) = Some (Alt (map (\<lambda>x. Seq (its x)) xs))"
proof -
  have "map (\<lambda>x. Seq (its x)) (butlast xs) @ [Seq (its (last xs))] = map (\<lambda>x. Seq (its x)) xs"
    using assms(2) by (induction xs) auto
  then show ?thesis
    using parse_join [OF assms, where alts = "[]" and st = "[]" and rest = "[]"]
    by (simp add: parse_pattern_def)
qed


subsection \<open>Matching the parsed patterns\<close>

lemma concat_map_single: "concat (map (\<lambda>x. [x]) xs) = xs"
  by (induction xs) auto

lemma rmatch_seq_Nil: "rmatch_seq casefold [] = (\<lambda>s. [s])"
  by (rule ext) simp

lemma rmatch_seq_single: "rmatch_seq casefold [r] s = rmatch casefold r s"
  by (simp add: rmatch_seq_Nil concat_map_single)

lemma rmatch_seq_word:
  "rmatch_seq casefold (map Lit w @ rs) s =
     (if wprefix casefold w s then rmatch_seq casefold rs (drop (length w) s) else [])"
proof (induction w arbitrary: s)
  case Nil
  show ?case by simp
next
  case (Cons c w)
  show ?case by (cases s) (simp_all add: Cons.IH)
qed

lemma rmatch_alt_map:
  "rmatch_alt casefold (map (\<lambda>x. Seq (f x)) xs) s = concat (map (\<lambda>x. rmatch_seq casefold (f x) s) xs)"
  by (induction xs) auto

lemma rmatch_word: "rmatch_seq casefold (map Lit w) s = (if wprefix casefold w s then [drop (length w) s] else [])"
  using rmatch_seq_word [of casefold w "[]" s] by simp

lemma rmatch_words:
  "rmatch_alt casefold (map (\<lambda>w. Seq (map Lit (g w))) ws) s =
     map (\<lambda>w. drop (length (g w)) s) (filter (\<lambda>w. wprefix casefold (g w) s) ws)"
  by (induction ws) (auto simp: rmatch_word)

lemma rmatch_factored:
  "rmatch_seq casefold [Alt [Seq (map Lit key @ [Alt (map (\<lambda>w. Seq (map Lit (tl w))) g)])]] s =
     (if wprefix casefold key s
      then map (\<lambda>w. drop (length (tl w)) (drop (length key) s))
             (filter (\<lambda>w. wprefix casefold (tl w) (drop (length key) s)) g)
      else [])"
proof -
  let ?A = "map (\<lambda>w. Seq (map Lit (tl w))) g"
  have alt: "rmatch_seq casefold [Alt ?A] t =
             map (\<lambda>w. drop (length (tl w)) t) (filter (\<lambda>w. wprefix casefold (tl w) t) g)" for t
    by (simp only: rmatch_seq_single rmatch.simps rmatch_words)
  have "rmatch_seq casefold [Alt [Seq (map Lit key @ [Alt ?A])]] s =
        rmatch casefold (Alt [Seq (map Lit key @ [Alt ?A])]) s"
    by (rule rmatch_seq_single)
  also have "\<dots> = rmatch_seq casefold (map Lit key @ [Alt ?A]) s"
    by (simp only: rmatch.simps rmatch_alt.simps append_Nil2)
  also have "\<dots> = (if wprefix casefold key s then rmatch_seq casefold [Alt ?A] (drop (length key) s) else [])"
    by (rule rmatch_seq_word)
  finally show ?thesis by (simp only: alt)
qed

lemma wprefix_first:
  assumes "w \<noteq> []" and "casefold k = casefold (hd w)"
  shows "wprefix casefold w s =
         (wprefix casefold [k] s \<and> wprefix casefold (tl w) (drop (length [k]) s))"
proof -
  obtain c u where w: "w = c # u" using assms(1) by (cases w) auto
  have "ceq casefold k x = ceq casefold c x" for x
    using assms(2) by (simp add: ceq_def w)
  then show ?thesis by (cases s) (simp_all add: w)
qed

lemma drop_first: "w \<noteq> [] \<Longrightarrow> drop (length (tl w)) (drop (length [c]) s) = drop (length w) s"
  by (cases w) simp_all

lemma plain_keyword_key:
  "plain_keyword str_upper casefold w \<Longrightarrow> first_upper str_upper w = [casefold (hd w)]"
  by (simp add: plain_keyword_def first_upper_def)

lemma set_keyword_group:
  "set (keyword_group str_upper keyword_list c) = {w \<in> set keyword_list. first_upper str_upper w = c}"
  by (auto simp: keyword_group_def sort_keywords_def)

lemma set_group_keys: "set (group_keys str_upper keyword_list) = first_upper str_upper ` set keyword_list"
  by (simp add: group_keys_def)

lemma rmatch_items:
  assumes pk: "\<forall>w \<in> set keyword_list. plain_keyword str_upper casefold w"
    and c: "c \<in> set (group_keys str_upper keyword_list)"
  shows "rmatch_seq casefold (items_of str_upper keyword_list c) s =
         map (\<lambda>w. drop (length w) s) (filter (\<lambda>w. wprefix casefold w s) (keyword_group str_upper keyword_list c))"
proof -
  let ?g = "keyword_group str_upper keyword_list c"
  have mem: "w \<noteq> [] \<and> casefold (casefold (hd w)) = casefold (hd w) \<and> c = [casefold (hd w)]"
    if "w \<in> set ?g" for w
  proof -
    from that have "w \<in> set keyword_list" and "first_upper str_upper w = c"
      by (simp_all add: set_keyword_group)
    with pk plain_keyword_key [of str_upper casefold w] show ?thesis
      by (auto simp: plain_keyword_def)
  qed
  show ?thesis
  proof (cases "length ?g = 1")
    case True
    then obtain w where g: "?g = [w]" by (cases ?g) auto
    show ?thesis by (simp add: items_of_def g rmatch_word)
  next
    case False
    have "(if wprefix casefold c s
           then map (\<lambda>w. drop (length (tl w)) (drop (length c) s))
                  (filter (\<lambda>w. wprefix casefold (tl w) (drop (length c) s)) ?g)
           else []) =
          map (\<lambda>w. drop (length w) s) (filter (\<lambda>w. wprefix casefold w s) ?g)"
    proof (cases "wprefix casefold c s")
      case True
      have "filter (\<lambda>w. wprefix casefold (tl w) (drop (length c) s)) ?g = filter (\<lambda>w. wprefix casefold w s) ?g"
      proof (rule filter_cong [OF refl])
        fix w assume "w \<in> set ?g"
        from mem [OF this] True wprefix_first [of w casefold "casefold (hd w)" s]
        show "wprefix casefold (tl w) (drop (length c) s) = wprefix casefold w s" by auto
      qed
      moreover have "map (\<lambda>w. drop (length (tl w)) (drop (length c) s)) (filter (\<lambda>w. wprefix casefold w s) ?g) =
                     map (\<lambda>w. drop (length w) s) (filter (\<lambda>w. wprefix casefold w s) ?g)"
      proof (rule map_cong [OF refl])
        fix w assume "w \<in> set (filter (\<lambda>w. wprefix casefold w s) ?g)"
        then have "w \<in> set ?g" by simp
        from mem [OF this] drop_first [of w "casefold (hd w)" s]
        show "drop (length (tl w)) (drop (length c) s) = drop (length w) s" by auto
      qed
      ultimately show ?thesis using True by simp
    next
      case no: False
      have "filter (\<lambda>w. wprefix casefold w s) ?g = []"
      proof -
        have "\<not> wprefix casefold w s" if "w \<in> set ?g" for w
          using mem [OF that] no wprefix_first [of w casefold "casefold (hd w)" s] by auto
        then show ?thesis by (simp add: filter_empty_conv)
      qed
      with no show ?thesis by simp
    qed
    then show ?thesis
      unfolding items_of_def Let_def if_not_P [OF False] rmatch_factored .
  qed
qed


subsection \<open>The pattern of a keyword list\<close>

lemma map_butlast_last: "xs \<noteq> [] \<Longrightarrow> map f (butlast xs) @ [f (last xs)] = map f xs"
  by (induction xs) auto

lemma parse_group:
  assumes pk: "\<forall>w \<in> set keyword_list. plain_keyword str_upper casefold w"
    and c: "c \<in> set (group_keys str_upper keyword_list)"
  shows "parse_re ((alts, []) # st) (group_alternative str_upper keyword_list c @ rest) =
         parse_re ((alts, items_of str_upper keyword_list c) # st) rest"
proof -
  let ?g = "keyword_group str_upper keyword_list c"
  from c obtain w0 where w0: "w0 \<in> set keyword_list" "first_upper str_upper w0 = c"
    by (auto simp: set_group_keys)
  then have gne: "?g \<noteq> []"
    using set_keyword_group [of str_upper keyword_list c] by auto
  have words: "no_meta w \<and> no_meta (tl w)" if "w \<in> set ?g" for w
  proof -
    from that pk have "no_meta w" by (simp add: set_keyword_group plain_keyword_def)
    then show ?thesis by (cases w) (simp_all add: no_meta_def)
  qed
  have key: "no_meta c"
  proof -
    from w0 pk have "plain_keyword str_upper casefold w0" by simp
    with w0 plain_keyword_key [of str_upper casefold w0] show ?thesis
      by (simp add: no_meta_def plain_keyword_def)
  qed
  show ?thesis
  proof (cases "length ?g = 1")
    case True
    then obtain w where g: "?g = [w]" by (cases ?g) auto
    then have "no_meta w" using words [of w] by simp
    then show ?thesis
      using parse_word [of w alts "[]" st rest]
      by (simp add: group_alternative_def items_of_def g)
  next
    case False
    let ?A = "map (\<lambda>w. Seq (map Lit (tl w))) ?g"
    let ?inner = "([], map Lit c) # (alts, []) # st"
    have shape: "group_alternative str_upper keyword_list c @ rest =
               CHR ''('' # CHR ''?'' # CHR '':'' # c @ CHR ''('' # CHR ''?'' # CHR '':'' #
               join ''|'' (map tl ?g) @ CHR '')'' # CHR '')'' # rest"
      using False by (simp add: group_alternative_def)
    have open1: "parse_re ((alts, []) # st) (CHR ''('' # CHR ''?'' # CHR '':'' # t) =
                 parse_re (([], []) # (alts, []) # st) t" for t
      by simp
    have open2: "parse_re ?inner (CHR ''('' # CHR ''?'' # CHR '':'' # t) =
                 parse_re (([], []) # ?inner) t" for t
      by simp
    have sufs: "parse_re (([], []) # ?inner) (join ''|'' (map tl ?g) @ t) =
                parse_re ((map (\<lambda>w. Seq (map Lit (tl w))) (butlast ?g), map Lit (tl (last ?g))) # ?inner) t"
      for t
    proof (rule parse_join [where its = "\<lambda>w. map Lit (tl w)" and alts = "[]", simplified])
      fix x alts' st' rest'
      assume "x \<in> set ?g"
      then have "no_meta (tl x)" using words by simp
      then show "parse_re ((alts', []) # st') (tl x @ rest') =
                 parse_re ((alts', map Lit (tl x)) # st') rest'"
        using parse_word [of "tl x" alts' "[]" st' rest'] by simp
    next
      show "?g \<noteq> []" by (rule gne)
    qed
    have close2: "parse_re ((map (\<lambda>w. Seq (map Lit (tl w))) (butlast ?g), map Lit (tl (last ?g))) # ?inner)
                    (CHR '')'' # CHR '')'' # rest) =
                  parse_re ((alts, [Alt [Seq (map Lit c @ [Alt ?A])]]) # st) rest"
      using map_butlast_last [OF gne, of "\<lambda>w. Seq (map Lit (tl w))"] by simp
    have "parse_re ((alts, []) # st) (group_alternative str_upper keyword_list c @ rest) =
          parse_re ((alts, [Alt [Seq (map Lit c @ [Alt ?A])]]) # st) rest"
      unfolding shape open1
      by (simp only: parse_word [OF key, of "[]" "[]", simplified] open2 sufs close2)
    with False show ?thesis by (simp add: items_of_def)
  qed
qed

lemma single_group:
  assumes "length (group_keys str_upper keyword_list) = 1"
  shows "alternatives str_upper keyword_list = sort_keywords keyword_list"
proof -
  from assms obtain c where keys: "group_keys str_upper keyword_list = [c]"
    by (cases "group_keys str_upper keyword_list") auto
  then have "first_upper str_upper ` set keyword_list = {c}"
    using set_group_keys [of str_upper keyword_list] by simp
  then have "filter (\<lambda>w. first_upper str_upper w = c) keyword_list = keyword_list"
    by (auto simp: filter_id_conv)
  then show ?thesis by (simp add: alternatives_def keys keyword_group_def)
qed

lemma pattern_semantics:
  assumes nonempty: "keyword_list \<noteq> []"
    and pk: "\<forall>w \<in> set keyword_list. plain_keyword str_upper casefold w"
  shows "\<exists>r. parse_pattern (optimize_spec str_upper keyword_list) = Some r \<and>
           (\<forall>s. rmatch casefold r s =
              map (\<lambda>w. drop (length w) s) (filter (\<lambda>w. wprefix casefold w s) (alternatives str_upper keyword_list)))"
proof (cases "length (group_keys str_upper keyword_list) = 1")
  case True
  let ?ws = "sort_keywords keyword_list"
  have "length ?ws = length keyword_list" by (simp add: sort_keywords_def)
  with nonempty have wsne: "?ws \<noteq> []" by auto
  have "parse_pattern (join ''|'' (map (\<lambda>w. w) ?ws)) = Some (Alt (map (\<lambda>w. Seq (map Lit w)) ?ws))"
  proof (rule parse_pattern_join)
    fix x alts st rest
    assume "x \<in> set ?ws"
    then have "no_meta x" using pk by (simp add: sort_keywords_def plain_keyword_def)
    then show "parse_re ((alts, []) # st) (x @ rest) = parse_re ((alts, map Lit x) # st) rest"
      using parse_word [of x alts "[]" st rest] by simp
  next
    show "?ws \<noteq> []" by (rule wsne)
  qed
  then have "parse_pattern (optimize_spec str_upper keyword_list) = Some (Alt (map (\<lambda>w. Seq (map Lit w)) ?ws))"
    using True nonempty by (simp add: optimize_spec_def)
  moreover have "rmatch casefold (Alt (map (\<lambda>w. Seq (map Lit w)) ?ws)) s =
        map (\<lambda>w. drop (length w) s) (filter (\<lambda>w. wprefix casefold w s) (alternatives str_upper keyword_list))" for s
    using rmatch_words [of casefold "\<lambda>w. w" ?ws s] by (simp add: single_group [OF True])
  ultimately show ?thesis by blast
next
  case False
  let ?keys = "group_keys str_upper keyword_list"
  have kne: "?keys \<noteq> []"
    using nonempty set_group_keys [of str_upper keyword_list] by (cases ?keys) auto
  have "parse_pattern (join ''|'' (map (group_alternative str_upper keyword_list) ?keys)) =
        Some (Alt (map (\<lambda>c. Seq (items_of str_upper keyword_list c)) ?keys))"
  proof (rule parse_pattern_join)
    fix x alts st rest
    assume "x \<in> set ?keys"
    then show "parse_re ((alts, []) # st) (group_alternative str_upper keyword_list x @ rest) =
               parse_re ((alts, items_of str_upper keyword_list x) # st) rest"
      by (rule parse_group [OF pk])
  next
    show "?keys \<noteq> []" by (rule kne)
  qed
  then have "parse_pattern (optimize_spec str_upper keyword_list) =
             Some (Alt (map (\<lambda>c. Seq (items_of str_upper keyword_list c)) ?keys))"
    using False nonempty by (simp add: optimize_spec_def)
  moreover have "rmatch casefold (Alt (map (\<lambda>c. Seq (items_of str_upper keyword_list c)) ?keys)) s =
        map (\<lambda>w. drop (length w) s) (filter (\<lambda>w. wprefix casefold w s) (alternatives str_upper keyword_list))" for s
  proof -
    have "rmatch casefold (Alt (map (\<lambda>c. Seq (items_of str_upper keyword_list c)) ?keys)) s =
          concat (map (\<lambda>c. rmatch_seq casefold (items_of str_upper keyword_list c) s) ?keys)"
      by (simp only: rmatch.simps rmatch_alt_map)
    also have "\<dots> = concat (map (\<lambda>c. map (\<lambda>w. drop (length w) s)
                           (filter (\<lambda>w. wprefix casefold w s) (keyword_group str_upper keyword_list c))) ?keys)"
      by (rule arg_cong [where f = concat], rule map_cong [OF refl], rule rmatch_items [OF pk])
    also have "\<dots> = map (\<lambda>w. drop (length w) s)
                      (filter (\<lambda>w. wprefix casefold w s) (alternatives str_upper keyword_list))"
      by (simp add: alternatives_def map_concat filter_concat comp_def)
    finally show ?thesis .
  qed
  ultimately show ?thesis by blast
qed


lemma wprefix_full: "list_all2 (ceq casefold) w s = (wprefix casefold w s \<and> drop (length w) s = [])"
proof (induction w arbitrary: s)
  case Nil
  show ?case by auto
next
  case (Cons c w)
  show ?case by (cases s) (auto simp: Cons.IH)
qed

lemma wprefix_length: "wprefix casefold w s \<Longrightarrow> length w \<le> length s"
proof (induction w arbitrary: s)
  case Nil
  show ?case by simp
next
  case (Cons c w)
  then show ?case by (cases s) auto
qed

lemma wprefix_refl: "wprefix casefold w w"
  by (induction w) (simp_all add: ceq_def)

lemma wprefix_key:
  assumes "wprefix casefold w s"
    and "plain_keyword str_upper casefold w" and "plain_keyword str_upper casefold s"
  shows "first_upper str_upper w = first_upper str_upper s"
proof -
  from assms(2,3) obtain c u x v where w: "w = c # u" and s: "s = x # v"
    by (cases w; cases s) (auto simp: plain_keyword_def)
  with assms(1) have "casefold c = casefold x" by (simp add: ceq_def)
  with assms(2,3) show ?thesis
    by (simp add: plain_keyword_def first_upper_def w s)
qed

lemma list_all2_map:
  "list_all2 (\<lambda>a b. f a = f b) w s = (map f w = map f s)"
proof (induction w arbitrary: s)
  case Nil
  show ?case by auto
next
  case (Cons c w)
  show ?case by (cases s) (auto simp: Cons.IH)
qed

lemma list_all2_fold: "list_all2 (ceq casefold) w s = (map casefold w = map casefold s)"
proof -
  have "ceq casefold = (\<lambda>a b. casefold a = casefold b)"
    by (intro ext) (simp add: ceq_def)
  then show ?thesis by (simp add: list_all2_map)
qed

lemma set_alternatives: "set (alternatives str_upper keyword_list) = set keyword_list"
  by (auto simp: alternatives_def set_keyword_group set_group_keys)

lemma optimize_nonempty:
  "keyword_list \<noteq> [] \<Longrightarrow> [] \<notin> set keyword_list \<Longrightarrow>
   optimize_pattern str_upper keyword_list = Inr (optimize_spec str_upper keyword_list)"
  by (simp add: optimize_pattern_eq)

lemma full_match_keywords:
  assumes pk: "\<forall>w \<in> set keyword_list. plain_keyword str_upper casefold w"
    and dom: "keyword_list \<noteq> [] \<or> s \<noteq> []"
  shows "full_match casefold (optimize_spec str_upper keyword_list) s =
         (\<exists>w \<in> set keyword_list. map casefold w = map casefold s)"
proof (cases "keyword_list = []")
  case True
  with dom show ?thesis
    by (simp add: optimize_spec_def full_match_def parse_pattern_def)
next
  case False
  from pattern_semantics [OF False pk] obtain r
    where r: "parse_pattern (optimize_spec str_upper keyword_list) = Some r"
      and m: "\<And>s. rmatch casefold r s =
                map (\<lambda>w. drop (length w) s)
                  (filter (\<lambda>w. wprefix casefold w s) (alternatives str_upper keyword_list))"
    by blast
  have "([] \<in> set (rmatch casefold r s)) =
        (\<exists>w \<in> set (alternatives str_upper keyword_list).
           wprefix casefold w s \<and> drop (length w) s = [])"
    unfolding m by (auto simp: image_iff)
  then show ?thesis
    by (simp only: full_match_def r option.case wprefix_full [symmetric] list_all2_fold
          set_alternatives)
qed



lemma plain_keywords_nonempty:
  "\<forall>w \<in> set keyword_list. plain_keyword str_upper casefold w \<Longrightarrow> [] \<notin> set keyword_list"
  by (auto simp: plain_keyword_def)

lemma sorted_keywords_length:
  "sorted_wrt (\<lambda>a b. length b \<le> length a) (sort_keywords ws)"
proof -
  have "sorted (map (\<lambda>x. (- int (length x), x)) (sort_keywords ws))"
    unfolding sort_keywords_def by (rule sorted_sort_key)
  then have "sorted_wrt (\<lambda>a b. (- int (length a), a) \<le> (- int (length b), b)) (sort_keywords ws)"
    by (simp add: sorted_map)
  then show ?thesis
    by (rule sorted_wrt_mono_rel [rotated]) (auto simp: less_eq_prod_def)
qed

lemma first_longest:
  "sorted_wrt (\<lambda>a b. length b \<le> length a) g \<Longrightarrow> x \<in> set g \<Longrightarrow> P x \<Longrightarrow>
   filter P g \<noteq> [] \<and> length x \<le> length (hd (filter P g))"
proof (induction g)
  case Nil
  then show ?case by simp
next
  case (Cons y g)
  show ?case
  proof (cases "P y")
    case True
    with Cons.prems show ?thesis by auto
  next
    case False
    with Cons show ?thesis by auto
  qed
qed

lemma concat_only:
  "distinct keys \<Longrightarrow> k \<in> set keys \<Longrightarrow>
   (\<And>c. c \<in> set keys \<Longrightarrow> c \<noteq> k \<Longrightarrow> f c = []) \<Longrightarrow> concat (map f keys) = f k"
proof (induction keys)
  case Nil
  then show ?case by simp
next
  case (Cons c keys)
  show ?case
  proof (cases "c = k")
    case True
    with Cons.prems have "\<And>x. x \<in> set keys \<Longrightarrow> f x = []" by auto
    then have "concat (map f keys) = []" by simp
    with True show ?thesis by simp
  next
    case False
    with Cons show ?thesis by auto
  qed
qed

lemma distinct_group_keys: "distinct (group_keys str_upper keyword_list)"
  by (simp add: group_keys_def)

lemma first_match_keyword:
  assumes pk: "\<forall>w \<in> set keyword_list. plain_keyword str_upper casefold w"
    and k: "k \<in> set keyword_list"
  shows "first_match casefold (optimize_spec str_upper keyword_list) k = Some k"
proof -
  have nonempty: "keyword_list \<noteq> []" using k by auto
  from pattern_semantics [OF nonempty pk] obtain r
    where r: "parse_pattern (optimize_spec str_upper keyword_list) = Some r"
      and m: "\<And>s. rmatch casefold r s =
                map (\<lambda>w. drop (length w) s)
                  (filter (\<lambda>w. wprefix casefold w s) (alternatives str_upper keyword_list))"
    by blast
  let ?P = "\<lambda>w. wprefix casefold w k"
  let ?key = "first_upper str_upper k"
  let ?G = "keyword_group str_upper keyword_list ?key"
  have key: "?key \<in> set (group_keys str_upper keyword_list)"
    using k by (simp add: set_group_keys)
  have other: "filter ?P (keyword_group str_upper keyword_list c) = []"
    if "c \<in> set (group_keys str_upper keyword_list)" "c \<noteq> ?key" for c
  proof -
    have "\<not> ?P w" if w: "w \<in> set (keyword_group str_upper keyword_list c)" for w
    proof
      assume "?P w"
      moreover from w pk have "plain_keyword str_upper casefold w"
        by (simp add: set_keyword_group)
      moreover from k pk have "plain_keyword str_upper casefold k" by simp
      ultimately have "first_upper str_upper w = ?key" by (rule wprefix_key)
      with w \<open>c \<noteq> ?key\<close> show False by (simp add: set_keyword_group)
    qed
    then show ?thesis by (simp add: filter_empty_conv)
  qed
  have F: "filter ?P (alternatives str_upper keyword_list) = filter ?P ?G"
    unfolding alternatives_def filter_concat map_map comp_def
    using concat_only [OF distinct_group_keys key, of "\<lambda>c. filter ?P (keyword_group str_upper keyword_list c)"]
          other
    by simp
  have kG: "k \<in> set ?G" using k by (simp add: set_keyword_group)
  have srt: "sorted_wrt (\<lambda>a b. length b \<le> length a) ?G"
    unfolding keyword_group_def by (rule sorted_keywords_length)
  from first_longest [OF srt kG, of ?P] wprefix_refl [of casefold k]
  have fne: "filter ?P ?G \<noteq> []" and ge: "length k \<le> length (hd (filter ?P ?G))"
    by simp_all
  from fne have "hd (filter ?P ?G) \<in> set (filter ?P ?G)" by (rule hd_in_set)
  then have "?P (hd (filter ?P ?G))" by simp
  then have "length (hd (filter ?P ?G)) \<le> length k" by (rule wprefix_length)
  with ge have len: "length (hd (filter ?P ?G)) = length k" by simp
  obtain w ws where fw: "filter ?P ?G = w # ws" using fne by (cases "filter ?P ?G") auto
  with len have "length w = length k" by simp
  then show ?thesis
    by (simp add: first_match_def r m F fw)
qed

lemma prefix_split:
  assumes srt: "sorted_wrt (\<lambda>a b. length b \<le> length a) g"
    and a: "a \<in> set g" and b: "b \<in> set g" and lt: "length b < length a"
  shows "\<exists>xs ys zs. g = xs @ a # ys @ b # zs"
proof -
  from a obtain xs rest where g: "g = xs @ a # rest" by (auto dest: split_list)
  have "b \<notin> set xs"
  proof
    assume "b \<in> set xs"
    with srt have "length a \<le> length b" by (auto simp: g sorted_wrt_append)
    with lt show False by simp
  qed
  moreover from lt have "b \<noteq> a" by auto
  ultimately have "b \<in> set rest" using b by (auto simp: g)
  then obtain ys zs where "rest = ys @ b # zs" by (auto dest: split_list)
  with g show ?thesis by blast
qed

lemma alternatives_order:
  assumes ne: "[] \<notin> set keyword_list"
    and k: "k \<in> set keyword_list" and k': "k' \<in> set keyword_list"
    and pre: "strict_prefix k k'"
  shows "\<exists>xs ys zs. alternatives str_upper keyword_list = xs @ k' # ys @ k # zs"
proof -
  let ?key = "first_upper str_upper k'"
  let ?G = "keyword_group str_upper keyword_list ?key"
  from k ne have kne: "k \<noteq> []" by auto
  from pre obtain u where u: "k' = k @ u" "u \<noteq> []"
    by (auto simp: strict_prefix_def prefix_def)
  with kne have same: "first_upper str_upper k = ?key"
    by (cases k) (simp_all add: first_upper_def)
  have lt: "length k < length k'" using u by simp
  have "k' \<in> set ?G" and "k \<in> set ?G"
    using k k' same by (simp_all add: set_keyword_group)
  with prefix_split [OF _ _ _ lt, of ?G] obtain xs ys zs where G: "?G = xs @ k' # ys @ k # zs"
    unfolding keyword_group_def using sorted_keywords_length by blast
  have "?key \<in> set (group_keys str_upper keyword_list)"
    using k' by (simp add: set_group_keys)
  then obtain ks1 ks2 where "group_keys str_upper keyword_list = ks1 @ ?key # ks2"
    by (auto dest: split_list)
  then have "alternatives str_upper keyword_list =
             (concat (map (keyword_group str_upper keyword_list) ks1) @ xs) @ k' # ys @ k #
             (zs @ concat (map (keyword_group str_upper keyword_list) ks2))"
    by (simp add: alternatives_def G)
  then show ?thesis by blast
qed


section \<open>Claims about patterns and rules\<close>

text \<open>
  C6. \<^verbatim>\<open>optimize_pattern\<close> returns the pattern worded above, whatever \<^verbatim>\<open>str.upper\<close>
  does to a character: the empty string on the empty list; with one group of upper-cased
  first characters the \<^verbatim>\<open>|\<close>-joined sorted list; with several groups one alternative per
  group joined with \<^verbatim>\<open>|\<close>, a group of one keyword giving the keyword itself and a larger
  group the factored form of its key character and the alternation of the keywords cut by
  one character. (A keyword without a first character raises \<^verbatim>\<open>IndexError\<close>.)
\<close>

theorem optimize_pattern_shape:
  "optimize_pattern str_upper keyword_list =
     (if [] \<in> set keyword_list then Inl IndexError
      else Inr (optimize_spec str_upper keyword_list))"
  by (rule optimize_pattern_eq)

theorem optimize_pattern_shape_witness:
  "optimize_pattern (map ascii_upper) [] = Inr [] \<and>
   optimize_pattern (map ascii_upper) [''AB'', ''A'', ''ab''] = Inr ''AB|ab|A'' \<and>
   optimize_pattern (map ascii_upper) [''A'', ''C'', ''AB'', ''ab'', ''B''] =
     Inr ''(?:A(?:B|b|))|B|C''"
  using optimize_pattern_shape [of "map ascii_upper" "[]"]
        optimize_pattern_shape [of "map ascii_upper" "[''AB'', ''A'', ''ab'']"]
        optimize_pattern_shape [of "map ascii_upper" "[''A'', ''C'', ''AB'', ''ab'', ''B'']"]
  by (simp add: optimize_spec_def group_keys_def first_upper_def ascii_upper_def
                sort_keywords_def group_alternative_def keyword_group_def)

text \<open>
  C7 (as amended). The module named \<^verbatim>\<open>BASIC\<close>, and no other, is left out of both lists
  that \<^verbatim>\<open>generate_module_patterns\<close> returns: the result is that of the table without its
  \<^verbatim>\<open>BASIC\<close> entries, whatever they hold. The name is a literal of the loop; nothing in the
  input changes it. When the command names and sub-keywords of the other modules are
  non-empty strings, every other module gets one region rule and one repository entry, in
  the table's order; on every other table the call raises and no module gets a rule. The
  region rule of a module begins at the \<^verbatim>\<open>PROG\<close> line that names the module, ends before
  the next \<^verbatim>\<open>PROG\<close> line and includes the module's repository entry, which opens under
  the module's name.
\<close>

theorem base_module_excluded:
  "generate_module_patterns str_upper str_lower keywords_data =
     generate_module_patterns str_upper str_lower (filter (\<lambda>(m, module_commands). m \<noteq> ''BASIC'') keywords_data) \<and>
   (string_table keywords_data \<longrightarrow>
      generate_module_patterns str_upper str_lower keywords_data =
        Inr (map (module_region str_lower) (filter (\<lambda>(m, module_commands). m \<noteq> ''BASIC'') keywords_data),
             map (module_rules str_upper) (filter (\<lambda>(m, module_commands). m \<noteq> ''BASIC'') keywords_data))) \<and>
   (\<not> string_table keywords_data \<longrightarrow>
      (\<exists>e. generate_module_patterns str_upper str_lower keywords_data = Inl e)) \<and>
   sublist (''begin: '' @ apostrophe @ module_begin m @ apostrophe @ newline)
     (module_region str_lower (m, module_commands)) \<and>
   sublist (''end: '' @ apostrophe @ module_end @ apostrophe @ newline)
     (module_region str_lower (m, module_commands)) \<and>
   sublist (''{'include': '#'' @ m @ apostrophe @ ''}'')
     (module_region str_lower (m, module_commands)) \<and>
   prefix (repository_entry_open m) (module_rules str_upper (m, module_commands))"
proof -
  have "generate_module_patterns str_upper str_lower keywords_data =
        generate_module_patterns str_upper str_lower (filter (\<lambda>(m, module_commands). m \<noteq> ''BASIC'') keywords_data)"
    using module_patterns_loop_scoped [of str_upper str_lower keywords_data "([], [])"]
    by (simp add: generate_module_patterns_def scoped_modules_def)
  moreover have "string_table keywords_data \<longrightarrow>
      generate_module_patterns str_upper str_lower keywords_data =
        Inr (map (module_region str_lower) (filter (\<lambda>(m, module_commands). m \<noteq> ''BASIC'') keywords_data),
             map (module_rules str_upper) (filter (\<lambda>(m, module_commands). m \<noteq> ''BASIC'') keywords_data))"
    using generate_module_patterns_keywords [of keywords_data str_upper str_lower]
    by (simp add: scoped_modules_def)
  moreover have "\<not> string_table keywords_data \<longrightarrow>
      (\<exists>e. generate_module_patterns str_upper str_lower keywords_data = Inl e)"
    using generate_module_patterns_error [of keywords_data str_upper str_lower] by simp
  moreover have "prefix (repository_entry_open m) (module_rules str_upper (m, module_commands))"
    by (simp add: module_rules_def)
  ultimately show ?thesis
    using module_pattern_begin [of m "str_lower m"] module_pattern_end [of m "str_lower m"]
          module_pattern_include [of m "str_lower m"]
    by (simp add: module_region_def)
qed

theorem base_module_excluded_witness:
  "generate_module_patterns (map ascii_upper) (map ascii_lower)
     [(''BASIC'', [(PyInt 3, [PyStr ''X''])]),
      (''AQUA'', [(PyStr ''NORM'', [PyStr ''DC'', PyStr ''NDC'']), (PyStr ''END'', [])])] =
   Inr ([newline @
         ''  {'' @ newline @
         ''  begin: '(?i)^ *(['' @ backslash @ backslash @ ''$'' @ backslash @ backslash @ ''+-]?PROG)( +AQUA)( .*)?$'' @ apostrophe @ newline @
         ''  beginCaptures:'' @ newline @
         ''    1: name: 'support.class.aqua.sofistik'' @ apostrophe @ newline @
         ''    2: name: 'support.class.aqua.sofistik'' @ apostrophe @ newline @
         ''    3:'' @ newline @
         ''      name: 'comment.line.aqua.sofistik'' @ apostrophe @ newline @
         ''      patterns: [{ include: 'text.todo' }]'' @ newline @
         ''  end: '(?i)(?=^ *['' @ backslash @ backslash @ ''$'' @ backslash @ backslash @ ''+-]?PROG'' @ backslash @ backslash @ ''b)'' @ apostrophe @ newline @
         ''  name: 'module.aqua.sofistik'' @ apostrophe @ newline @
         ''  patterns: ['' @ newline @
         ''    {'include': '#AQUA'}'' @ newline @
         ''    ]'' @ newline @
         ''  }''],
        [newline @
         ''  AQUA: {'' @ newline @
         ''    patterns: ['' @ newline @
         ''      { include: '#preprocessorDefine' }'' @ newline @
         ''      {'' @ newline @
         ''        begin: '(?i)(?:^ *|; *)(NORM)(?=;|$| )'' @ apostrophe @ newline @
         ''        beginCaptures:'' @ newline @
         ''          1: name: 'keyword.control.sofistik'' @ apostrophe @ newline @
         ''        end: '(?i)(?=(?:^ *|; *)(?:END|NORM)|;|^ *['' @ backslash @ backslash @ ''$'' @ backslash @ backslash @ ''+-]?PROG'' @ backslash @ backslash @ ''b)'' @ apostrophe @ newline @
         ''        patterns: ['' @ newline @
         ''          {'' @ newline @
         ''            match: '(?i)(?<!'' @ backslash @ backslash @ ''w)(DC|NDC)(?!'' @ backslash @ backslash @ ''w)'' @ apostrophe @ newline @
         ''            name: 'entity.name.function.sofistik'' @ apostrophe @ newline @
         ''          }'' @ newline @
         ''          { include: '#normalText' }'' @ newline @
         ''        ]'' @ newline @
         ''      }'' @ newline @
         ''      {'' @ newline @
         ''        match: '(?i)(?:^ *|; *)(END)(?=;|$| )'' @ apostrophe @ newline @
         ''        captures:'' @ newline @
         ''          1: name: 'keyword.control.sofistik'' @ apostrophe @ newline @
         ''      }'' @ newline @
         ''      { include: '#normalText' }'' @ newline @
         ''    ]'' @ newline @
         ''  }'']) \<and>
   (\<exists>e. generate_module_patterns (map ascii_upper) (map ascii_lower)
           [(''AQUA'', [(PyStr ''END'', [PyStr ''''])])] = Inl e)"
  using base_module_excluded
          [of "map ascii_upper" "map ascii_lower"
              "[(''BASIC'', [(PyInt 3, [PyStr ''X''])]),
      (''AQUA'', [(PyStr ''NORM'', [PyStr ''DC'', PyStr ''NDC'']), (PyStr ''END'', [])])]",
           THEN conjunct2, THEN conjunct1]
        base_module_excluded
          [of "map ascii_upper" "map ascii_lower" "[(''AQUA'', [(PyStr ''END'', [PyStr ''''])])]",
           THEN conjunct2, THEN conjunct2, THEN conjunct1]
  by (simp add: string_table_def string_commands_def is_keyword_def module_region_def
                module_rules_def scoped_rule_def format_cell_def ascii_lower_def ascii_upper_def
                keyword_pattern_def optimize_spec_def group_keys_def first_upper_def
                sort_keywords_def group_alternative_def keyword_group_def
                module_begin_end_pattern_def repository_entry_open_def region_rule_def
                match_rule_def repository_entry_close_def apostrophe_def)

text \<open>
  C7 as worded gives every module but \<^verbatim>\<open>BASIC\<close> a region rule on every table. The table
  loaded from a sheet \<^verbatim>\<open>M\<close> whose only cell is the number 5 and a sheet \<^verbatim>\<open>AQUA\<close> whose
  only cell is \<^verbatim>\<open>END\<close> holds a command name that is no string: the sort of the command
  names of \<^verbatim>\<open>M\<close> raises \<^verbatim>\<open>TypeError\<close>, and neither \<^verbatim>\<open>M\<close> nor \<^verbatim>\<open>AQUA\<close> gets a rule.
  With an empty string as sub-keyword of a command of \<^verbatim>\<open>AQUA\<close> the call raises
  \<^verbatim>\<open>IndexError\<close>.
\<close>

theorem no_region_rule_for_number_command:
  "load_keywords [(''M'', [[PyInt 5]]), (''AQUA'', [[PyStr ''END'']])] =
     [(''M'', [(PyInt 5, [])]), (''AQUA'', [(PyStr ''END'', [])])] \<and>
   generate_module_patterns (map ascii_upper) (map ascii_lower)
     (load_keywords [(''M'', [[PyInt 5]]), (''AQUA'', [[PyStr ''END'']])]) = Inl TypeError \<and>
   generate_module_patterns (map ascii_upper) (map ascii_lower)
     [(''AQUA'', [(PyStr ''END'', [PyStr ''''])])] = Inl IndexError"
  by code_simp

text \<open>
  C8. Grammar generation is deterministic: the result of \<^verbatim>\<open>generate_grammar\<close> is fixed
  by the table, and by its entries outside
  \<^verbatim>\<open>BASIC\<close> alone: two evaluations on tables that hold the same modules in the same order
  outside \<^verbatim>\<open>BASIC\<close> give the same result. On a table whose command names and sub-keywords
  outside \<^verbatim>\<open>BASIC\<close> are non-empty strings the result is the string made of the fixed
  header, the module region rules in the table's iteration order, the fixed repository
  text, and the modules' repository entries in the same order; on every other table both
  evaluations raise. The file \<^verbatim>\<open>main\<close> writes is fixed by the workbook in the same way: the
  grammar of the loaded table without its first character, and a line feed. The region
  rule of a module names the module in its \<^verbatim>\<open>begin\<close>, and its repository entry opens under
  the module's name, so the order of the modules is the order of the text.
\<close>

theorem generate_grammar_deterministic:
  "(filter (\<lambda>(m, module_commands). m \<noteq> ''BASIC'') keywords_data = filter (\<lambda>(m, module_commands). m \<noteq> ''BASIC'') keywords_data' \<longrightarrow>
      generate_grammar str_upper str_lower keywords_data =
      generate_grammar str_upper str_lower keywords_data') \<and>
   (string_table keywords_data \<longrightarrow>
      generate_grammar str_upper str_lower keywords_data =
        Inr (grammar_header @
             concat (map (module_region str_lower) (filter (\<lambda>(m, module_commands). m \<noteq> ''BASIC'') keywords_data)) @
             repository_base_patterns @
             concat (map (module_rules str_upper) (filter (\<lambda>(m, module_commands). m \<noteq> ''BASIC'') keywords_data)))) \<and>
   (\<not> string_table keywords_data \<longrightarrow>
      (\<exists>e. generate_grammar str_upper str_lower keywords_data = Inl e)) \<and>
   grammar_file str_upper str_lower workbook =
     (case generate_grammar str_upper str_lower (load_keywords workbook) of
        Inl e \<Rightarrow> Inl e
      | Inr complete_grammar \<Rightarrow> Inr (drop 1 complete_grammar @ newline)) \<and>
   sublist (''begin: '' @ apostrophe @ module_begin m @ apostrophe @ newline)
     (module_region str_lower (m, module_commands)) \<and>
   prefix (repository_entry_open m) (module_rules str_upper (m, module_commands))"
proof -
  have scoped: "generate_module_patterns str_upper str_lower t =
                generate_module_patterns str_upper str_lower (filter (\<lambda>(m, module_commands). m \<noteq> ''BASIC'') t)" for t
    using module_patterns_loop_scoped [of str_upper str_lower t "([], [])"]
    by (simp add: generate_module_patterns_def scoped_modules_def)
  have "filter (\<lambda>(m, module_commands). m \<noteq> ''BASIC'') keywords_data = filter (\<lambda>(m, module_commands). m \<noteq> ''BASIC'') keywords_data' \<longrightarrow>
      generate_grammar str_upper str_lower keywords_data =
      generate_grammar str_upper str_lower keywords_data'"
    using scoped [of keywords_data] scoped [of keywords_data']
    by (simp add: generate_grammar_def)
  moreover have "string_table keywords_data \<longrightarrow>
      generate_grammar str_upper str_lower keywords_data =
        Inr (grammar_header @
             concat (map (module_region str_lower) (filter (\<lambda>(m, module_commands). m \<noteq> ''BASIC'') keywords_data)) @
             repository_base_patterns @
             concat (map (module_rules str_upper) (filter (\<lambda>(m, module_commands). m \<noteq> ''BASIC'') keywords_data)))"
    using generate_module_patterns_keywords [of keywords_data str_upper str_lower]
    by (simp add: generate_grammar_def scoped_modules_def)
  moreover have "\<not> string_table keywords_data \<longrightarrow>
      (\<exists>e. generate_grammar str_upper str_lower keywords_data = Inl e)"
    using generate_module_patterns_error [of keywords_data str_upper str_lower]
    by (auto simp: generate_grammar_def)
  moreover have "grammar_file str_upper str_lower workbook =
     (case generate_grammar str_upper str_lower (load_keywords workbook) of
        Inl e \<Rightarrow> Inl e
      | Inr complete_grammar \<Rightarrow> Inr (drop 1 complete_grammar @ newline))"
    by (simp add: grammar_file_def)
  moreover have "prefix (repository_entry_open m) (module_rules str_upper (m, module_commands))"
    by (simp add: module_rules_def)
  ultimately show ?thesis
    using module_pattern_begin [of m "str_lower m"]
    by (simp add: module_region_def)
qed

theorem generate_grammar_deterministic_witness:
  "grammar_file (map ascii_upper) (map ascii_lower)
     [(''ASE'', [[PyStr ''END'']]), (''BASIC'', [[PyStr ''LET'', PyInt 1]]),
      (''AQUA'', [[PyStr ''NORM'', PyStr ''DC'']])] =
   Inr (''# ***** References *****'' @ newline @
       ''# https://pulsar-edit.dev/docs/launch-manual/sections/core-hacking/#creating-a-legacy-textmate-grammar'' @ newline @
       ''# https://gist.github.com/savetheclocktower/c9607b97477d4817911e4f2f8db89679'' @ newline @
       ''# http://manual.macromates.com/en/language_grammars/'' @ newline @
       ''# https://github.com/kkos/oniguruma/blob/master/doc/RE'' @ newline @
       ''# https://regex101.com/'' @ newline @
       newline @
       ''scopeName: 'source.sofistik'' @ apostrophe @ newline @
       ''name: 'SOFiSTiK'' @ apostrophe @ newline @
       ''fileTypes: ['dat','gra','grb','results']'' @ newline @
       ''patterns: ['' @ newline @
       ''  {'' @ newline @
       ''    match: '(?i)^@ *SOFiSTiK *('' @ backslash @ backslash @ ''d{4})(-'' @ backslash @ backslash @ ''d'' @ backslash @ backslash @ ''d?)? *$'' @ apostrophe @ newline @
       ''    name: 'meta.version.sofistik'' @ apostrophe @ newline @
       ''  }'' @ newline @
       ''  {'' @ newline @
       ''    match: '(?i)^@ .+'' @ apostrophe @ newline @
       ''    name: 'meta.sofistik'' @ apostrophe @ newline @
       ''  }'' @ newline @
       ''  { include: '#normalText' }'' @ newline @
       newline @
       ''  {'' @ newline @
       ''  begin: '(?i)^ *(['' @ backslash @ backslash @ ''$'' @ backslash @ backslash @ ''+-]?PROG)( +ASE)( .*)?$'' @ apostrophe @ newline @
       ''  beginCaptures:'' @ newline @
       ''    1: name: 'support.class.ase.sofistik'' @ apostrophe @ newline @
       ''    2: name: 'support.class.ase.sofistik'' @ apostrophe @ newline @
       ''    3:'' @ newline @
       ''      name: 'comment.line.ase.sofistik'' @ apostrophe @ newline @
       ''      patterns: [{ include: 'text.todo' }]'' @ newline @
       ''  end: '(?i)(?=^ *['' @ backslash @ backslash @ ''$'' @ backslash @ backslash @ ''+-]?PROG'' @ backslash @ backslash @ ''b)'' @ apostrophe @ newline @
       ''  name: 'module.ase.sofistik'' @ apostrophe @ newline @
       ''  patterns: ['' @ newline @
       ''    {'include': '#ASE'}'' @ newline @
       ''    ]'' @ newline @
       ''  }'' @ newline @
       ''  {'' @ newline @
       ''  begin: '(?i)^ *(['' @ backslash @ backslash @ ''$'' @ backslash @ backslash @ ''+-]?PROG)( +AQUA)( .*)?$'' @ apostrophe @ newline @
       ''  beginCaptures:'' @ newline @
       ''    1: name: 'support.class.aqua.sofistik'' @ apostrophe @ newline @
       ''    2: name: 'support.class.aqua.sofistik'' @ apostrophe @ newline @
       ''    3:'' @ newline @
       ''      name: 'comment.line.aqua.sofistik'' @ apostrophe @ newline @
       ''      patterns: [{ include: 'text.todo' }]'' @ newline @
       ''  end: '(?i)(?=^ *['' @ backslash @ backslash @ ''$'' @ backslash @ backslash @ ''+-]?PROG'' @ backslash @ backslash @ ''b)'' @ apostrophe @ newline @
       ''  name: 'module.aqua.sofistik'' @ apostrophe @ newline @
       ''  patterns: ['' @ newline @
       ''    {'include': '#AQUA'}'' @ newline @
       ''    ]'' @ newline @
       ''  }'' @ newline @
       '']'' @ newline @
       ''repository:'' @ newline @
       ''  normalText: {'' @ newline @
       ''    patterns: ['' @ newline @
       ''      { include: '#textCommands' }'' @ newline @
       ''      { include: '#preprocessorDefine' }'' @ newline @
       ''      { include: '#preprocessorInclude' }'' @ newline @
       ''      { include: '#preprocessorApplyAndSys' }'' @ newline @
       ''      { include: '#preprocessorConditional' }'' @ newline @
       ''      { include: '#dollarVariableReference' }'' @ newline @
       ''      { include: '#textBlock' }'' @ newline @
       ''      { include: '#comments' }'' @ newline @
       ''      { include: '#stringDoubleQuoted' }'' @ newline @
       ''      { include: '#stringSingleQuoted' }'' @ newline @
       ''      { include: '#variableCommands' }'' @ newline @
       ''      { include: '#hashVariableReference' }'' @ newline @
       ''      { include: '#loopKeyword' }'' @ newline @
       ''      { include: '#controlFlowKeywords' }'' @ newline @
       ''      { include: '#expressionWithEquals' }'' @ newline @
       ''      { include: '#units' }'' @ newline @
       ''    ]'' @ newline @
       ''  }'' @ newline @
       ''  textCommands: {'' @ newline @
       ''    match: '(?i)(^ *)(HEAD|TXB|TXE)( .+?$| *$)'' @ apostrophe @ newline @
       ''    captures:'' @ newline @
       ''      1: name: 'support.type.sofistik'' @ apostrophe @ newline @
       ''      2: name: 'keyword.control.sofistik'' @ apostrophe @ newline @
       ''  }'' @ newline @
       ''  textBlock: {'' @ newline @
       ''    begin: '(?i)^[ ]*(<TEXT>|<TEXT,FILE='' @ backslash @ backslash @ ''+?(.+)>)(?= |$)'' @ apostrophe @ newline @
       ''    beginCaptures:'' @ newline @
       ''      1: name: 'support.function.sofistik'' @ apostrophe @ newline @
       ''      2: name: 'string.other.sofistik'' @ apostrophe @ newline @
       ''    end: '(?i)^[ ]*(<'' @ backslash @ backslash @ ''/TEXT>)(?= |$)'' @ apostrophe @ newline @
       ''    endCaptures:'' @ newline @
       ''      1: name: 'support.function.sofistik'' @ apostrophe @ newline @
       ''    patterns: ['' @ newline @
       ''      { include: '#dollarVariableReference' }'' @ newline @
       ''      { include: '#hashVariableReference' }'' @ newline @
       ''      { include: '#editBlock' }'' @ newline @
       ''    ]'' @ newline @
       ''  }'' @ newline @
       ''  editBlock: {'' @ newline @
       ''    begin: '(?i)(<EDIT:.+?>)'' @ apostrophe @ newline @
       ''    beginCaptures:'' @ newline @
       ''      1: name: 'support.function.sofistik'' @ apostrophe @ newline @
       ''    end: '(?i)(<'' @ backslash @ backslash @ ''/EDIT>)'' @ apostrophe @ newline @
       ''    endCaptures:'' @ newline @
       ''      1: name: 'support.function.sofistik'' @ apostrophe @ newline @
       ''    patterns: ['' @ newline @
       ''      { include: '#hashVariableReference' }'' @ newline @
       ''      { include: '#dollarVariableReference' }'' @ newline @
       ''    ]'' @ newline @
       ''  }'' @ newline @
       ''  preprocessorDefine: {'' @ newline @
       ''    match: '(?i)^[ ]*(#DEFINE|#ENDDEF) *(.+?)?(?: *= *(.*))?$'' @ apostrophe @ newline @
       ''    captures:'' @ newline @
       ''      1: name: 'entity.name.section.sofistik'' @ apostrophe @ newline @
       ''      2: name: 'string.other.sofistik'' @ apostrophe @ newline @
       ''      3: patterns: ['' @ newline @
       ''        { include: '#dollarVariableReference' }'' @ newline @
       ''        { include: '#comments' }'' @ newline @
       ''        { include: '#stringDoubleQuoted' }'' @ newline @
       ''        { include: '#stringSingleQuoted' }'' @ newline @
       ''        { include: '#variableCommands' }'' @ newline @
       ''        { include: '#hashVariableReference' }'' @ newline @
       ''        { include: '#loopKeyword' }'' @ newline @
       ''        { include: '#controlFlowKeywords' }'' @ newline @
       ''        { include: '#expressionWithEquals' }'' @ newline @
       ''        { include: '#units' }'' @ newline @
       ''      ]'' @ newline @
       ''      4: name: 'entity.name.section.sofistik'' @ apostrophe @ newline @
       ''  }'' @ newline @
       ''  preprocessorInclude: {'' @ newline @
       ''    match: '(?i)^[ ]*(#INCLUDE) +(.+)'' @ apostrophe @ newline @
       ''    captures:'' @ newline @
       ''      1: name: 'entity.name.section.sofistik'' @ apostrophe @ newline @
       ''      2:'' @ newline @
       ''        name: 'string.other.sofistik'' @ apostrophe @ newline @
       ''        patterns: [{ include: '#dollarVariableReference' }]'' @ newline @
       ''  }'' @ newline @
       ''  preprocessorApplyAndSys: {'' @ newline @
       ''    match: '(?i)^[ ]*(['' @ backslash @ backslash @ ''$'' @ backslash @ backslash @ ''+-]?APPLY|['' @ backslash @ backslash @ ''+-]?SYS)( +.+)'' @ apostrophe @ newline @
       ''    captures:'' @ newline @
       ''      1: name: 'support.class.sofistik'' @ apostrophe @ newline @
       ''      2:'' @ newline @
       ''        name: 'string.other.sofistik'' @ apostrophe @ newline @
       ''        patterns: ['' @ newline @
       ''          { include: '#dollarVariableReference' }'' @ newline @
       ''          { include: '#comments' }'' @ newline @
       ''        ]'' @ newline @
       ''  }'' @ newline @
       ''  preprocessorConditional: {'' @ newline @
       ''    match: '(?i)^[ ]*(#IF|#ELSE|#ENDIF)'' @ apostrophe @ newline @
       ''    captures:'' @ newline @
       ''      1: name: 'entity.name.section.sofistik'' @ apostrophe @ newline @
       ''  }'' @ newline @
       ''  dollarVariableReference: {'' @ newline @
       ''    match: '(;)?[ ]*('' @ backslash @ backslash @ ''$'' @ backslash @ backslash @ ''('' @ backslash @ backslash @ ''S+?'' @ backslash @ backslash @ ''))'' @ apostrophe @ newline @
       ''    captures:'' @ newline @
       ''      1: name: 'support.type.sofistik'' @ apostrophe @ newline @
       ''      2: name: 'variable.other.sofistik'' @ apostrophe @ newline @
       ''  }'' @ newline @
       ''  comments: {'' @ newline @
       ''    match: '(?i)(?:!|'' @ backslash @ backslash @ ''/'' @ backslash @ backslash @ ''/|'' @ backslash @ backslash @ ''$(?!PROG))(.*)'' @ apostrophe @ newline @
       ''    name: 'comment.line.sofistik'' @ apostrophe @ newline @
       ''    captures:'' @ newline @
       ''      1: patterns: [{ include: 'text.todo' }]'' @ newline @
       ''  }'' @ newline @
       ''  stringDoubleQuoted: {'' @ newline @
       ''    match: '' @ apostrophe @ backslash @ backslash @ dquote @ ''(.*?)'' @ backslash @ backslash @ dquote @ apostrophe @ newline @
       ''    name: 'string.double.sofistik'' @ apostrophe @ newline @
       ''    captures:'' @ newline @
       ''      1: patterns: [{ include: '#dollarVariableReference' }]'' @ newline @
       ''  }'' @ newline @
       ''  stringSingleQuoted: {'' @ newline @
       ''    match: '' @ dquote @ backslash @ backslash @ apostrophe @ ''(.*?)'' @ backslash @ backslash @ apostrophe @ dquote @ newline @
       ''    name: 'string.single.sofistik'' @ apostrophe @ newline @
       ''    captures:'' @ newline @
       ''      1: patterns: [{ include: '#dollarVariableReference' }]'' @ newline @
       ''  }'' @ newline @
       ''  variableCommands: {'' @ newline @
       ''    match: '(?i)(^|;)[ ]*(LET|STO|DEL|DBG|PRT)(?!'' @ backslash @ backslash @ ''w)'' @ apostrophe @ newline @
       ''    captures:'' @ newline @
       ''      1: name: 'support.type.sofistik'' @ apostrophe @ newline @
       ''      2: name: 'keyword.control.sofistik'' @ apostrophe @ newline @
       ''  }'' @ newline @
       ''  hashVariableReference: {'' @ newline @
       ''    match: '(#'' @ backslash @ backslash @ ''w+|#'' @ backslash @ backslash @ ''('' @ backslash @ backslash @ ''w+(?:,'' @ backslash @ backslash @ ''d'' @ backslash @ backslash @ ''.'' @ backslash @ backslash @ ''d)?'' @ backslash @ backslash @ ''))'' @ apostrophe @ newline @
       ''    name: 'variable.other.sofistik'' @ apostrophe @ newline @
       ''  }'' @ newline @
       ''  loopKeyword: {'' @ newline @
       ''    match: '(?i)(^|;)[ ]*(LOOP)(?!'' @ backslash @ backslash @ ''w)'' @ apostrophe @ newline @
       ''    captures:'' @ newline @
       ''      1: name: 'support.type.sofistik'' @ apostrophe @ newline @
       ''      2: name: 'keyword.control.sofistik'' @ apostrophe @ newline @
       ''  }'' @ newline @
       ''  controlFlowKeywords: {'' @ newline @
       ''    match: '(?i)(^|;)[ ]*(IF|ELSEIF|ELSE|ENDIF|ENDLOOP|END)(?='' @ backslash @ backslash @ ''s|$)'' @ apostrophe @ newline @
       ''    captures:'' @ newline @
       ''      1: name: 'support.type.sofistik'' @ apostrophe @ newline @
       ''      2: name: 'keyword.control.sofistik'' @ apostrophe @ newline @
       ''  }'' @ newline @
       ''  expressionWithEquals: {'' @ newline @
       ''    match: '(?<='' @ backslash @ backslash @ ''s|^)(='' @ backslash @ backslash @ ''S+)'' @ apostrophe @ newline @
       ''    captures:'' @ newline @
       ''      1:'' @ newline @
       ''        name: 'entity.name.function.sofistik'' @ apostrophe @ newline @
       ''        patterns: [{'include': '#hashVariableReference'}]'' @ newline @
       ''  }'' @ newline @
       ''  units: {'' @ newline @
       ''    match: '(?<='' @ backslash @ backslash @ ''S)'' @ backslash @ backslash @ ''[.*?'' @ backslash @ backslash @ '']'' @ apostrophe @ newline @
       ''    name: 'constant.other.sofistik'' @ apostrophe @ newline @
       ''  }'' @ newline @
       newline @
       ''  ASE: {'' @ newline @
       ''    patterns: ['' @ newline @
       ''      { include: '#preprocessorDefine' }'' @ newline @
       ''      {'' @ newline @
       ''        match: '(?i)(?:^ *|; *)(END)(?=;|$| )'' @ apostrophe @ newline @
       ''        captures:'' @ newline @
       ''          1: name: 'keyword.control.sofistik'' @ apostrophe @ newline @
       ''      }'' @ newline @
       ''      { include: '#normalText' }'' @ newline @
       ''    ]'' @ newline @
       ''  }'' @ newline @
       ''  AQUA: {'' @ newline @
       ''    patterns: ['' @ newline @
       ''      { include: '#preprocessorDefine' }'' @ newline @
       ''      {'' @ newline @
       ''        begin: '(?i)(?:^ *|; *)(NORM)(?=;|$| )'' @ apostrophe @ newline @
       ''        beginCaptures:'' @ newline @
       ''          1: name: 'keyword.control.sofistik'' @ apostrophe @ newline @
       ''        end: '(?i)(?=(?:^ *|; *)(?:NORM)|;|^ *['' @ backslash @ backslash @ ''$'' @ backslash @ backslash @ ''+-]?PROG'' @ backslash @ backslash @ ''b)'' @ apostrophe @ newline @
       ''        patterns: ['' @ newline @
       ''          {'' @ newline @
       ''            match: '(?i)(?<!'' @ backslash @ backslash @ ''w)(DC)(?!'' @ backslash @ backslash @ ''w)'' @ apostrophe @ newline @
       ''            name: 'entity.name.function.sofistik'' @ apostrophe @ newline @
       ''          }'' @ newline @
       ''          { include: '#normalText' }'' @ newline @
       ''        ]'' @ newline @
       ''      }'' @ newline @
       ''      { include: '#normalText' }'' @ newline @
       ''    ]'' @ newline @
       ''  }'' @ newline) \<and>
   generate_grammar (map ascii_upper) (map ascii_lower)
     [(''ASE'', [(PyStr ''END'', [])]), (''BASIC'', [(PyStr ''LET'', [])]),
      (''AQUA'', [(PyStr ''END'', [])])] =
   generate_grammar (map ascii_upper) (map ascii_lower)
     [(''ASE'', [(PyStr ''END'', [])]), (''AQUA'', [(PyStr ''END'', [])]),
      (''BASIC'', [(PyInt 7, [PyNone])])] \<and>
   (\<exists>e. generate_grammar (map ascii_upper) (map ascii_lower)
           [(''ASE'', [(PyInt 7, [])])] = Inl e)"
proof -
  have table: "load_keywords [(''ASE'', [[PyStr ''END'']]), (''BASIC'', [[PyStr ''LET'', PyInt 1]]),
      (''AQUA'', [[PyStr ''NORM'', PyStr ''DC'']])] =
     [(''ASE'', [(PyStr ''END'', [])]), (''BASIC'', [(PyStr ''LET'', [PyInt 1])]),
      (''AQUA'', [(PyStr ''NORM'', [PyStr ''DC''])])]"
    by code_simp
  have strings: "string_table (load_keywords [(''ASE'', [[PyStr ''END'']]), (''BASIC'', [[PyStr ''LET'', PyInt 1]]),
      (''AQUA'', [[PyStr ''NORM'', PyStr ''DC'']])])"
    unfolding table by (simp add: string_table_def string_commands_def is_keyword_def)
  have "grammar_file (map ascii_upper) (map ascii_lower)
     [(''ASE'', [[PyStr ''END'']]), (''BASIC'', [[PyStr ''LET'', PyInt 1]]),
      (''AQUA'', [[PyStr ''NORM'', PyStr ''DC'']])] =
   Inr (''# ***** References *****'' @ newline @
       ''# https://pulsar-edit.dev/docs/launch-manual/sections/core-hacking/#creating-a-legacy-textmate-grammar'' @ newline @
       ''# https://gist.github.com/savetheclocktower/c9607b97477d4817911e4f2f8db89679'' @ newline @
       ''# http://manual.macromates.com/en/language_grammars/'' @ newline @
       ''# https://github.com/kkos/oniguruma/blob/master/doc/RE'' @ newline @
       ''# https://regex101.com/'' @ newline @
       newline @
       ''scopeName: 'source.sofistik'' @ apostrophe @ newline @
       ''name: 'SOFiSTiK'' @ apostrophe @ newline @
       ''fileTypes: ['dat','gra','grb','results']'' @ newline @
       ''patterns: ['' @ newline @
       ''  {'' @ newline @
       ''    match: '(?i)^@ *SOFiSTiK *('' @ backslash @ backslash @ ''d{4})(-'' @ backslash @ backslash @ ''d'' @ backslash @ backslash @ ''d?)? *$'' @ apostrophe @ newline @
       ''    name: 'meta.version.sofistik'' @ apostrophe @ newline @
       ''  }'' @ newline @
       ''  {'' @ newline @
       ''    match: '(?i)^@ .+'' @ apostrophe @ newline @
       ''    name: 'meta.sofistik'' @ apostrophe @ newline @
       ''  }'' @ newline @
       ''  { include: '#normalText' }'' @ newline @
       newline @
       ''  {'' @ newline @
       ''  begin: '(?i)^ *(['' @ backslash @ backslash @ ''$'' @ backslash @ backslash @ ''+-]?PROG)( +ASE)( .*)?$'' @ apostrophe @ newline @
       ''  beginCaptures:'' @ newline @
       ''    1: name: 'support.class.ase.sofistik'' @ apostrophe @ newline @
       ''    2: name: 'support.class.ase.sofistik'' @ apostrophe @ newline @
       ''    3:'' @ newline @
       ''      name: 'comment.line.ase.sofistik'' @ apostrophe @ newline @
       ''      patterns: [{ include: 'text.todo' }]'' @ newline @
       ''  end: '(?i)(?=^ *['' @ backslash @ backslash @ ''$'' @ backslash @ backslash @ ''+-]?PROG'' @ backslash @ backslash @ ''b)'' @ apostrophe @ newline @
       ''  name: 'module.ase.sofistik'' @ apostrophe @ newline @
       ''  patterns: ['' @ newline @
       ''    {'include': '#ASE'}'' @ newline @
       ''    ]'' @ newline @
       ''  }'' @ newline @
       ''  {'' @ newline @
       ''  begin: '(?i)^ *(['' @ backslash @ backslash @ ''$'' @ backslash @ backslash @ ''+-]?PROG)( +AQUA)( .*)?$'' @ apostrophe @ newline @
       ''  beginCaptures:'' @ newline @
       ''    1: name: 'support.class.aqua.sofistik'' @ apostrophe @ newline @
       ''    2: name: 'support.class.aqua.sofistik'' @ apostrophe @ newline @
       ''    3:'' @ newline @
       ''      name: 'comment.line.aqua.sofistik'' @ apostrophe @ newline @
       ''      patterns: [{ include: 'text.todo' }]'' @ newline @
       ''  end: '(?i)(?=^ *['' @ backslash @ backslash @ ''$'' @ backslash @ backslash @ ''+-]?PROG'' @ backslash @ backslash @ ''b)'' @ apostrophe @ newline @
       ''  name: 'module.aqua.sofistik'' @ apostrophe @ newline @
       ''  patterns: ['' @ newline @
       ''    {'include': '#AQUA'}'' @ newline @
       ''    ]'' @ newline @
       ''  }'' @ newline @
       '']'' @ newline @
       ''repository:'' @ newline @
       ''  normalText: {'' @ newline @
       ''    patterns: ['' @ newline @
       ''      { include: '#textCommands' }'' @ newline @
       ''      { include: '#preprocessorDefine' }'' @ newline @
       ''      { include: '#preprocessorInclude' }'' @ newline @
       ''      { include: '#preprocessorApplyAndSys' }'' @ newline @
       ''      { include: '#preprocessorConditional' }'' @ newline @
       ''      { include: '#dollarVariableReference' }'' @ newline @
       ''      { include: '#textBlock' }'' @ newline @
       ''      { include: '#comments' }'' @ newline @
       ''      { include: '#stringDoubleQuoted' }'' @ newline @
       ''      { include: '#stringSingleQuoted' }'' @ newline @
       ''      { include: '#variableCommands' }'' @ newline @
       ''      { include: '#hashVariableReference' }'' @ newline @
       ''      { include: '#loopKeyword' }'' @ newline @
       ''      { include: '#controlFlowKeywords' }'' @ newline @
       ''      { include: '#expressionWithEquals' }'' @ newline @
       ''      { include: '#units' }'' @ newline @
       ''    ]'' @ newline @
       ''  }'' @ newline @
       ''  textCommands: {'' @ newline @
       ''    match: '(?i)(^ *)(HEAD|TXB|TXE)( .+?$| *$)'' @ apostrophe @ newline @
       ''    captures:'' @ newline @
       ''      1: name: 'support.type.sofistik'' @ apostrophe @ newline @
       ''      2: name: 'keyword.control.sofistik'' @ apostrophe @ newline @
       ''  }'' @ newline @
       ''  textBlock: {'' @ newline @
       ''    begin: '(?i)^[ ]*(<TEXT>|<TEXT,FILE='' @ backslash @ backslash @ ''+?(.+)>)(?= |$)'' @ apostrophe @ newline @
       ''    beginCaptures:'' @ newline @
       ''      1: name: 'support.function.sofistik'' @ apostrophe @ newline @
       ''      2: name: 'string.other.sofistik'' @ apostrophe @ newline @
       ''    end: '(?i)^[ ]*(<'' @ backslash @ backslash @ ''/TEXT>)(?= |$)'' @ apostrophe @ newline @
       ''    endCaptures:'' @ newline @
       ''      1: name: 'support.function.sofistik'' @ apostrophe @ newline @
       ''    patterns: ['' @ newline @
       ''      { include: '#dollarVariableReference' }'' @ newline @
       ''      { include: '#hashVariableReference' }'' @ newline @
       ''      { include: '#editBlock' }'' @ newline @
       ''    ]'' @ newline @
       ''  }'' @ newline @
       ''  editBlock: {'' @ newline @
       ''    begin: '(?i)(<EDIT:.+?>)'' @ apostrophe @ newline @
       ''    beginCaptures:'' @ newline @
       ''      1: name: 'support.function.sofistik'' @ apostrophe @ newline @
       ''    end: '(?i)(<'' @ backslash @ backslash @ ''/EDIT>)'' @ apostrophe @ newline @
       ''    endCaptures:'' @ newline @
       ''      1: name: 'support.function.sofistik'' @ apostrophe @ newline @
       ''    patterns: ['' @ newline @
       ''      { include: '#hashVariableReference' }'' @ newline @
       ''      { include: '#dollarVariableReference' }'' @ newline @
       ''    ]'' @ newline @
       ''  }'' @ newline @
       ''  preprocessorDefine: {'' @ newline @
       ''    match: '(?i)^[ ]*(#DEFINE|#ENDDEF) *(.+?)?(?: *= *(.*))?$'' @ apostrophe @ newline @
       ''    captures:'' @ newline @
       ''      1: name: 'entity.name.section.sofistik'' @ apostrophe @ newline @
       ''      2: name: 'string.other.sofistik'' @ apostrophe @ newline @
       ''      3: patterns: ['' @ newline @
       ''        { include: '#dollarVariableReference' }'' @ newline @
       ''        { include: '#comments' }'' @ newline @
       ''        { include: '#stringDoubleQuoted' }'' @ newline @
       ''        { include: '#stringSingleQuoted' }'' @ newline @
       ''        { include: '#variableCommands' }'' @ newline @
       ''        { include: '#hashVariableReference' }'' @ newline @
       ''        { include: '#loopKeyword' }'' @ newline @
       ''        { include: '#controlFlowKeywords' }'' @ newline @
       ''        { include: '#expressionWithEquals' }'' @ newline @
       ''        { include: '#units' }'' @ newline @
       ''      ]'' @ newline @
       ''      4: name: 'entity.name.section.sofistik'' @ apostrophe @ newline @
       ''  }'' @ newline @
       ''  preprocessorInclude: {'' @ newline @
       ''    match: '(?i)^[ ]*(#INCLUDE) +(.+)'' @ apostrophe @ newline @
       ''    captures:'' @ newline @
       ''      1: name: 'entity.name.section.sofistik'' @ apostrophe @ newline @
       ''      2:'' @ newline @
       ''        name: 'string.other.sofistik'' @ apostrophe @ newline @
       ''        patterns: [{ include: '#dollarVariableReference' }]'' @ newline @
       ''  }'' @ newline @
       ''  preprocessorApplyAndSys: {'' @ newline @
       ''    match: '(?i)^[ ]*(['' @ backslash @ backslash @ ''$'' @ backslash @ backslash @ ''+-]?APPLY|['' @ backslash @ backslash @ ''+-]?SYS)( +.+)'' @ apostrophe @ newline @
       ''    captures:'' @ newline @
       ''      1: name: 'support.class.sofistik'' @ apostrophe @ newline @
       ''      2:'' @ newline @
       ''        name: 'string.other.sofistik'' @ apostrophe @ newline @
       ''        patterns: ['' @ newline @
       ''          { include: '#dollarVariableReference' }'' @ newline @
       ''          { include: '#comments' }'' @ newline @
       ''        ]'' @ newline @
       ''  }'' @ newline @
       ''  preprocessorConditional: {'' @ newline @
       ''    match: '(?i)^[ ]*(#IF|#ELSE|#ENDIF)'' @ apostrophe @ newline @
       ''    captures:'' @ newline @
       ''      1: name: 'entity.name.section.sofistik'' @ apostrophe @ newline @
       ''  }'' @ newline @
       ''  dollarVariableReference: {'' @ newline @
       ''    match: '(;)?[ ]*('' @ backslash @ backslash @ ''$'' @ backslash @ backslash @ ''('' @ backslash @ backslash @ ''S+?'' @ backslash @ backslash @ ''))'' @ apostrophe @ newline @
       ''    captures:'' @ newline @
       ''      1: name: 'support.type.sofistik'' @ apostrophe @ newline @
       ''      2: name: 'variable.other.sofistik'' @ apostrophe @ newline @
       ''  }'' @ newline @
       ''  comments: {'' @ newline @
       ''    match: '(?i)(?:!|'' @ backslash @ backslash @ ''/'' @ backslash @ backslash @ ''/|'' @ backslash @ backslash @ ''$(?!PROG))(.*)'' @ apostrophe @ newline @
       ''    name: 'comment.line.sofistik'' @ apostrophe @ newline @
       ''    captures:'' @ newline @
       ''      1: patterns: [{ include: 'text.todo' }]'' @ newline @
       ''  }'' @ newline @
       ''  stringDoubleQuoted: {'' @ newline @
       ''    match: '' @ apostrophe @ backslash @ backslash @ dquote @ ''(.*?)'' @ backslash @ backslash @ dquote @ apostrophe @ newline @
       ''    name: 'string.double.sofistik'' @ apostrophe @ newline @
       ''    captures:'' @ newline @
       ''      1: patterns: [{ include: '#dollarVariableReference' }]'' @ newline @
       ''  }'' @ newline @
       ''  stringSingleQuoted: {'' @ newline @
       ''    match: '' @ dquote @ backslash @ backslash @ apostrophe @ ''(.*?)'' @ backslash @ backslash @ apostrophe @ dquote @ newline @
       ''    name: 'string.single.sofistik'' @ apostrophe @ newline @
       ''    captures:'' @ newline @
       ''      1: patterns: [{ include: '#dollarVariableReference' }]'' @ newline @
       ''  }'' @ newline @
       ''  variableCommands: {'' @ newline @
       ''    match: '(?i)(^|;)[ ]*(LET|STO|DEL|DBG|PRT)(?!'' @ backslash @ backslash @ ''w)'' @ apostrophe @ newline @
       ''    captures:'' @ newline @
       ''      1: name: 'support.type.sofistik'' @ apostrophe @ newline @
       ''      2: name: 'keyword.control.sofistik'' @ apostrophe @ newline @
       ''  }'' @ newline @
       ''  hashVariableReference: {'' @ newline @
       ''    match: '(#'' @ backslash @ backslash @ ''w+|#'' @ backslash @ backslash @ ''('' @ backslash @ backslash @ ''w+(?:,'' @ backslash @ backslash @ ''d'' @ backslash @ backslash @ ''.'' @ backslash @ backslash @ ''d)?'' @ backslash @ backslash @ ''))'' @ apostrophe @ newline @
       ''    name: 'variable.other.sofistik'' @ apostrophe @ newline @
       ''  }'' @ newline @
       ''  loopKeyword: {'' @ newline @
       ''    match: '(?i)(^|;)[ ]*(LOOP)(?!'' @ backslash @ backslash @ ''w)'' @ apostrophe @ newline @
       ''    captures:'' @ newline @
       ''      1: name: 'support.type.sofistik'' @ apostrophe @ newline @
       ''      2: name: 'keyword.control.sofistik'' @ apostrophe @ newline @
       ''  }'' @ newline @
       ''  controlFlowKeywords: {'' @ newline @
       ''    match: '(?i)(^|;)[ ]*(IF|ELSEIF|ELSE|ENDIF|ENDLOOP|END)(?='' @ backslash @ backslash @ ''s|$)'' @ apostrophe @ newline @
       ''    captures:'' @ newline @
       ''      1: name: 'support.type.sofistik'' @ apostrophe @ newline @
       ''      2: name: 'keyword.control.sofistik'' @ apostrophe @ newline @
       ''  }'' @ newline @
       ''  expressionWithEquals: {'' @ newline @
       ''    match: '(?<='' @ backslash @ backslash @ ''s|^)(='' @ backslash @ backslash @ ''S+)'' @ apostrophe @ newline @
       ''    captures:'' @ newline @
       ''      1:'' @ newline @
       ''        name: 'entity.name.function.sofistik'' @ apostrophe @ newline @
       ''        patterns: [{'include': '#hashVariableReference'}]'' @ newline @
       ''  }'' @ newline @
       ''  units: {'' @ newline @
       ''    match: '(?<='' @ backslash @ backslash @ ''S)'' @ backslash @ backslash @ ''[.*?'' @ backslash @ backslash @ '']'' @ apostrophe @ newline @
       ''    name: 'constant.other.sofistik'' @ apostrophe @ newline @
       ''  }'' @ newline @
       newline @
       ''  ASE: {'' @ newline @
       ''    patterns: ['' @ newline @
       ''      { include: '#preprocessorDefine' }'' @ newline @
       ''      {'' @ newline @
       ''        match: '(?i)(?:^ *|; *)(END)(?=;|$| )'' @ apostrophe @ newline @
       ''        captures:'' @ newline @
       ''          1: name: 'keyword.control.sofistik'' @ apostrophe @ newline @
       ''      }'' @ newline @
       ''      { include: '#normalText' }'' @ newline @
       ''    ]'' @ newline @
       ''  }'' @ newline @
       ''  AQUA: {'' @ newline @
       ''    patterns: ['' @ newline @
       ''      { include: '#preprocessorDefine' }'' @ newline @
       ''      {'' @ newline @
       ''        begin: '(?i)(?:^ *|; *)(NORM)(?=;|$| )'' @ apostrophe @ newline @
       ''        beginCaptures:'' @ newline @
       ''          1: name: 'keyword.control.sofistik'' @ apostrophe @ newline @
       ''        end: '(?i)(?=(?:^ *|; *)(?:NORM)|;|^ *['' @ backslash @ backslash @ ''$'' @ backslash @ backslash @ ''+-]?PROG'' @ backslash @ backslash @ ''b)'' @ apostrophe @ newline @
       ''        patterns: ['' @ newline @
       ''          {'' @ newline @
       ''            match: '(?i)(?<!'' @ backslash @ backslash @ ''w)(DC)(?!'' @ backslash @ backslash @ ''w)'' @ apostrophe @ newline @
       ''            name: 'entity.name.function.sofistik'' @ apostrophe @ newline @
       ''          }'' @ newline @
       ''          { include: '#normalText' }'' @ newline @
       ''        ]'' @ newline @
       ''      }'' @ newline @
       ''      { include: '#normalText' }'' @ newline @
       ''    ]'' @ newline @
       ''  }'' @ newline)"
    using generate_grammar_deterministic
            [of "load_keywords [(''ASE'', [[PyStr ''END'']]), (''BASIC'', [[PyStr ''LET'', PyInt 1]]),
      (''AQUA'', [[PyStr ''NORM'', PyStr ''DC'']])]" _
                "map ascii_upper" "map ascii_lower"
                "[(''ASE'', [[PyStr ''END'']]), (''BASIC'', [[PyStr ''LET'', PyInt 1]]),
      (''AQUA'', [[PyStr ''NORM'', PyStr ''DC'']])]",
             THEN conjunct2]
          strings
    unfolding table
    by (simp add: module_region_def module_rules_def scoped_rule_def format_cell_def
                  ascii_lower_def ascii_upper_def keyword_pattern_def optimize_spec_def
                  group_keys_def first_upper_def sort_keywords_def group_alternative_def
                  keyword_group_def module_begin_end_pattern_def repository_entry_open_def
                  region_rule_def match_rule_def repository_entry_close_def grammar_header_def
                  repository_base_patterns_def apostrophe_def newline_def backslash_def
                  dquote_def)
  moreover have "generate_grammar (map ascii_upper) (map ascii_lower)
     [(''ASE'', [(PyStr ''END'', [])]), (''BASIC'', [(PyStr ''LET'', [])]),
      (''AQUA'', [(PyStr ''END'', [])])] =
   generate_grammar (map ascii_upper) (map ascii_lower)
     [(''ASE'', [(PyStr ''END'', [])]), (''AQUA'', [(PyStr ''END'', [])]),
      (''BASIC'', [(PyInt 7, [PyNone])])]"
    using generate_grammar_deterministic
            [of "[(''ASE'', [(PyStr ''END'', [])]), (''BASIC'', [(PyStr ''LET'', [])]),
      (''AQUA'', [(PyStr ''END'', [])])]"
                "[(''ASE'', [(PyStr ''END'', [])]), (''AQUA'', [(PyStr ''END'', [])]),
      (''BASIC'', [(PyInt 7, [PyNone])])]"
                "map ascii_upper" "map ascii_lower", THEN conjunct1]
    by simp
  moreover have "\<exists>e. generate_grammar (map ascii_upper) (map ascii_lower)
           [(''ASE'', [(PyInt 7, [])])] = Inl e"
    using generate_grammar_deterministic
            [of "[(''ASE'', [(PyInt 7, [])])]" _ "map ascii_upper" "map ascii_lower",
             THEN conjunct2, THEN conjunct2, THEN conjunct1]
    by (simp add: string_table_def string_commands_def is_keyword_def)
  ultimately show ?thesis by (intro conjI)
qed

subsection \<open>Claims about matching\<close>

text \<open>
  C1 (as amended). Take a list of plain keywords: non-empty strings without
  regular-expression metacharacters, the first character of each upper-cased by
  \<^verbatim>\<open>str.upper\<close> to the one character by which the engine compares it (its fold, itself no
  metacharacter). Then \<^verbatim>\<open>optimize_pattern\<close> returns a pattern, and for every token (the
  empty token apart when the list is empty) the pattern matches the token as a whole
  exactly when the token equals a keyword of the list up to the fold. Under the flag
  \<^verbatim>\<open>(?i)\<close>, which every emitted rule sets, that is equality up to letter case; in a
  case-sensitive match the fold is the identity, the keywords are those whose first
  character \<^verbatim>\<open>str.upper\<close> leaves as it is, and the set of the tokens matched is the set of
  the list.
\<close>

theorem optimized_pattern_matches_keywords:
  assumes "\<forall>w \<in> set keyword_list. plain_keyword str_upper casefold w"
  shows "\<exists>p. optimize_pattern str_upper keyword_list = Inr p \<and>
           (\<forall>s. keyword_list \<noteq> [] \<or> s \<noteq> [] \<longrightarrow>
                full_match casefold p s =
                  (\<exists>w \<in> set keyword_list. map casefold w = map casefold s))"
proof -
  have "optimize_pattern str_upper keyword_list = Inr (optimize_spec str_upper keyword_list)"
    using plain_keywords_nonempty [OF assms] by (simp add: optimize_pattern_eq)
  moreover have "full_match casefold (optimize_spec str_upper keyword_list) s =
                   (\<exists>w \<in> set keyword_list. map casefold w = map casefold s)"
    if "keyword_list \<noteq> [] \<or> s \<noteq> []" for s
    using assms that by (rule full_match_keywords)
  ultimately show ?thesis by blast
qed

theorem optimized_pattern_matches_keywords_witness:
  "(\<exists>p. optimize_pattern (map ascii_upper) [''NO'', ''NORM'', ''END''] = Inr p \<and>
        (\<forall>s. full_match id p s = (s \<in> set [''NO'', ''NORM'', ''END'']))) \<and>
   (\<exists>p. optimize_pattern (map ascii_upper) [''no'', ''Norm'', ''END''] = Inr p \<and>
        (\<forall>s. full_match ascii_upper p s =
               (\<exists>w \<in> set [''no'', ''Norm'', ''END'']. map ascii_upper w = map ascii_upper s)))"
  using optimized_pattern_matches_keywords [of "[''NO'', ''NORM'', ''END'']" "map ascii_upper" id]
        optimized_pattern_matches_keywords
          [of "[''no'', ''Norm'', ''END'']" "map ascii_upper" ascii_upper]
  by (simp add: plain_keyword_def no_meta_def meta_chars_def backslash_def ascii_upper_def
                eq_commute)

text \<open>
  C1 as worded speaks of every list of non-empty keywords and of the set of the list itself.
  The keyword \<^verbatim>\<open>A|B\<close> is emitted unescaped: the pattern does not match it and matches
  \<^verbatim>\<open>A\<close>. The group of \<^verbatim>\<open>ab\<close> and \<^verbatim>\<open>ac\<close> is factored on the upper-cased \<^verbatim>\<open>A\<close>, so
  in a case-sensitive match the pattern does not match \<^verbatim>\<open>ab\<close>; under \<^verbatim>\<open>(?i)\<close> the
  pattern of \<^verbatim>\<open>AB\<close> matches \<^verbatim>\<open>ab\<close>, which is not in the list. The pattern of the empty
  list is the empty string, which matches the empty token.
\<close>

theorem unescaped_keyword_not_matched:
  "optimize_pattern (map ascii_upper) [''A|B''] = Inr ''A|B'' \<and>
   \<not> full_match ascii_upper ''A|B'' ''A|B'' \<and> \<not> full_match id ''A|B'' ''A|B'' \<and>
   full_match id ''A|B'' ''A'' \<and> ''A'' \<notin> set [''A|B''] \<and>
   optimize_pattern (map ascii_upper) [''ab'', ''ac'', ''b''] = Inr ''(?:A(?:b|c))|b'' \<and>
   \<not> full_match id ''(?:A(?:b|c))|b'' ''ab'' \<and>
   optimize_pattern (map ascii_upper) [''AB''] = Inr ''AB'' \<and>
   full_match ascii_upper ''AB'' ''ab'' \<and> ''ab'' \<notin> set [''AB''] \<and>
   optimize_pattern (map ascii_upper) [] = Inr [] \<and> full_match id [] [] \<and> [] \<notin> set ([] :: string list)"
  by (simp add: optimize_pattern_def sort_keywords_def pattern_part_def group_lookup_def
                ascii_upper_def full_match_def parse_pattern_def meta_chars_def backslash_def
                ceq_def)

text \<open>
  C2 (as amended). For every list of plain keywords (as in C1: non-empty, without
  metacharacters, the first character upper-cased by \<^verbatim>\<open>str.upper\<close> to its fold) that
  holds a keyword \<open>k\<close> and a keyword \<open>k'\<close> of which \<open>k\<close> is a proper prefix: the
  pattern tries the keywords in the order of \<open>alternatives\<close>, \<open>k'\<close> comes before \<open>k\<close>
  in that order, and the first match of the pattern on the text \<open>k'\<close> is \<open>k'\<close> in full.
\<close>

theorem longer_keyword_matched_in_full:
  assumes "\<forall>w \<in> set keyword_list. plain_keyword str_upper casefold w"
    and "k \<in> set keyword_list" and "k' \<in> set keyword_list" and "strict_prefix k k'"
  shows "\<exists>p r. optimize_pattern str_upper keyword_list = Inr p \<and> parse_pattern p = Some r \<and>
           (\<forall>s. rmatch casefold r s =
                  map (\<lambda>w. drop (length w) s)
                    (filter (\<lambda>w. wprefix casefold w s) (alternatives str_upper keyword_list))) \<and>
           (\<exists>xs ys zs. alternatives str_upper keyword_list = xs @ k' # ys @ k # zs) \<and>
           first_match casefold p k' = Some k'"
proof -
  from assms(1) have ne: "[] \<notin> set keyword_list" by (rule plain_keywords_nonempty)
  have nonempty: "keyword_list \<noteq> []" using assms(2) by auto
  have p: "optimize_pattern str_upper keyword_list = Inr (optimize_spec str_upper keyword_list)"
    using ne by (simp add: optimize_pattern_eq)
  from pattern_semantics [OF nonempty assms(1)] obtain r
    where "parse_pattern (optimize_spec str_upper keyword_list) = Some r"
      and "\<forall>s. rmatch casefold r s =
                map (\<lambda>w. drop (length w) s)
                  (filter (\<lambda>w. wprefix casefold w s) (alternatives str_upper keyword_list))"
    by blast
  with p alternatives_order [OF ne assms(2,3,4), of str_upper]
       first_match_keyword [OF assms(1,3)]
  show ?thesis by blast
qed

theorem longer_keyword_matched_in_full_witness:
  "(\<exists>p. optimize_pattern (map ascii_upper) [''NO'', ''NORM'', ''END''] = Inr p \<and>
        first_match id p ''NORM'' = Some ''NORM'') \<and>
   (\<exists>p. optimize_pattern (map ascii_upper) [''no'', ''norm'', ''end''] = Inr p \<and>
        first_match ascii_upper p ''norm'' = Some ''norm'')"
proof -
  have "\<exists>p. optimize_pattern (map ascii_upper) [''NO'', ''NORM'', ''END''] = Inr p \<and>
            first_match id p ''NORM'' = Some ''NORM''"
    using longer_keyword_matched_in_full
            [of "[''NO'', ''NORM'', ''END'']" "map ascii_upper" id "''NO''" "''NORM''"]
    by (simp add: plain_keyword_def no_meta_def meta_chars_def backslash_def ascii_upper_def
                  strict_prefix_def) blast
  moreover have "\<exists>p. optimize_pattern (map ascii_upper) [''no'', ''norm'', ''end''] = Inr p \<and>
            first_match ascii_upper p ''norm'' = Some ''norm''"
    using longer_keyword_matched_in_full
            [of "[''no'', ''norm'', ''end'']" "map ascii_upper" ascii_upper "''no''" "''norm''"]
    by (simp add: plain_keyword_def no_meta_def meta_chars_def backslash_def ascii_upper_def
                  strict_prefix_def) blast
  ultimately show ?thesis by blast
qed

text \<open>
  C2 as worded speaks of every list of non-empty keywords. With the keywords \<^verbatim>\<open>A\<close> and
  \<^verbatim>\<open>A|B\<close> the pattern is \<^verbatim>\<open>A|B|A\<close>, whose first match on the text \<^verbatim>\<open>A|B\<close> is
  \<^verbatim>\<open>A\<close>. With \<^verbatim>\<open>ab\<close>, \<^verbatim>\<open>abc\<close> and \<^verbatim>\<open>x\<close> the group is factored on \<^verbatim>\<open>A\<close>, and
  in a case-sensitive match the pattern does not match the text \<^verbatim>\<open>abc\<close> at all.
\<close>

theorem unescaped_keyword_truncated:
  "strict_prefix ''A'' ''A|B'' \<and>
   optimize_pattern (map ascii_upper) [''A'', ''A|B''] = Inr ''A|B|A'' \<and>
   first_match ascii_upper ''A|B|A'' ''A|B'' = Some ''A'' \<and>
   first_match id ''A|B|A'' ''A|B'' = Some ''A'' \<and>
   strict_prefix ''ab'' ''abc'' \<and>
   optimize_pattern (map ascii_upper) [''ab'', ''abc'', ''x''] = Inr ''(?:A(?:bc|b))|x'' \<and>
   first_match id ''(?:A(?:bc|b))|x'' ''abc'' = None"
  by (simp add: optimize_pattern_def sort_keywords_def pattern_part_def group_lookup_def
                ascii_upper_def first_match_def parse_pattern_def meta_chars_def backslash_def
                ceq_def strict_prefix_def)





end
